theory Spec2Isabelle
  imports Complex_Main "HOL-Library.Sublist"
begin

section \<open>Strings and the Python runtime\<close>

text \<open>
  A Python \<open>str\<close> is a sequence of Unicode code points, so a string is a list of
  naturals; \<open>ustr\<close> turns an ASCII literal into its code points.
\<close>

type_synonym ustring = "nat list"

definition ustr :: "string \<Rightarrow> ustring" where
  "ustr s = map of_char s"

text \<open>
  The normalizer calls four functions of the Python runtime: \<open>unicodedata.normalize("NFKC", s)\<close>,
  \<open>unicodedata.combining(ch)\<close>, the whitespace test behind \<open>str.split()\<close> and \<open>str.lower()\<close>.
  They belong to the interpreter, not to the program, and are taken as a parameter.
\<close>

record unicode =
  nfkc :: "ustring \<Rightarrow> ustring"
  combining :: "nat \<Rightarrow> nat"
  isspace :: "nat \<Rightarrow> bool"
  lower :: "ustring \<Rightarrow> ustring"

text \<open>
  \<open>py_unicode\<close> is the runtime on a part of Unicode: the code points below U+0100,
  U+0130 (whose lower case is \<open>i\<close> followed by the combining dot U+0307) and the
  combining marks U+0300 to U+0314 (all of class 230). Lower-casing adds 32 to the capitals
  of Basic Latin and of Latin-1; the whitespace of \<open>str.split\<close> below U+0100 is
  U+0009 to U+000D, U+001C to U+0020, U+0085 and U+00A0. NFKC leaves a string alone when it
  holds no compatibility character and no sequence with a precomposed form, which is the
  case of every string this instance is evaluated at.
\<close>

definition py_lower_cp :: "nat \<Rightarrow> ustring" where
  "py_lower_cp c =
     (if 0x41 \<le> c \<and> c \<le> 0x5A then [c + 32]
      else if 0xC0 \<le> c \<and> c \<le> 0xDE \<and> c \<noteq> 0xD7 then [c + 32]
      else if c = 0x130 then [0x69, 0x307]
      else [c])"

definition py_isspace :: "nat \<Rightarrow> bool" where
  "py_isspace c = ((9 \<le> c \<and> c \<le> 13) \<or> (28 \<le> c \<and> c \<le> 32) \<or> c = 0x85 \<or> c = 0xA0)"

definition py_combining :: "nat \<Rightarrow> nat" where
  "py_combining c = (if 0x300 \<le> c \<and> c \<le> 0x314 then 230 else 0)"

definition py_unicode :: unicode where
  "py_unicode =
     \<lparr>nfkc = (\<lambda>s. s), combining = py_combining, isspace = py_isspace,
      lower = (\<lambda>s. concat (map py_lower_cp s))\<rparr>"

subsection \<open>\<open>str.replace\<close>, \<open>str.split\<close>, \<open>str.join\<close>, \<open>in\<close>\<close>

text \<open>
  \<open>s.replace(old, new)\<close> replaces the occurrences of \<open>old\<close> from the left, without
  overlap; with an empty \<open>old\<close> it puts \<open>new\<close> before every character and at the end.
\<close>

function replace :: "ustring \<Rightarrow> ustring \<Rightarrow> ustring \<Rightarrow> ustring" where
  "replace old new [] = (if old = [] then new else [])"
| "replace old new (c # cs) =
     (if old = [] then new @ c # replace old new cs
      else if prefix old (c # cs) then new @ replace old new (drop (length old) (c # cs))
      else c # replace old new cs)"
  by pat_completeness auto
termination
  by (relation "measure (\<lambda>(old, new, s). length s)") auto

text \<open>
  \<open>s.split()\<close> cuts at runs of whitespace and returns the non-empty pieces;
  \<open>split_from\<close> carries the piece being read.
\<close>

fun split_from :: "(nat \<Rightarrow> bool) \<Rightarrow> ustring \<Rightarrow> ustring \<Rightarrow> ustring list" where
  "split_from sp w [] = (if w = [] then [] else [w])"
| "split_from sp w (c # cs) =
     (if sp c then (if w = [] then split_from sp [] cs else w # split_from sp [] cs)
      else split_from sp (w @ [c]) cs)"

definition split_ws :: "unicode \<Rightarrow> ustring \<Rightarrow> ustring list" where
  "split_ws U s = split_from (isspace U) [] s"

fun join :: "ustring \<Rightarrow> ustring list \<Rightarrow> ustring" where
  "join sep [] = []"
| "join sep [w] = w"
| "join sep (w # v # ws) = w @ sep @ join sep (v # ws)"

text \<open>\<open>needle in hay\<close> on strings.\<close>

fun str_contains :: "ustring \<Rightarrow> ustring \<Rightarrow> bool" where
  "str_contains needle [] = (needle = [])"
| "str_contains needle (c # cs) = (prefix needle (c # cs) \<or> str_contains needle cs)"

section \<open>Text normalizer\<close>

text \<open>
  The table of \<open>_normalize_arabic\<close>, in the order of the dictionary literal. Each entry is
  written as the code points of the source file's literal: every key is two code points long,
  the first one U+00D8 or U+00D9.
\<close>

definition replacements :: "(ustring \<times> ustring) list" where
  "replacements =
     [([0xD8, 0xA3], [0xD8, 0xA7]),
      ([0xD8, 0xA5], [0xD8, 0xA7]),
      ([0xD8, 0xA2], [0xD8, 0xA7]),
      ([0xD9, 0x2030], [0xD9, 0x160]),
      ([0xD8, 0xA4], [0xD9, 0x2C6]),
      ([0xD8, 0xA6], [0xD9, 0x160]),
      ([0xD8, 0xA9], [0xD9, 0x2021]),
      ([0xD9, 0x20AC], [])]"

definition replace_variants :: "ustring \<Rightarrow> ustring" where
  "replace_variants text = foldl (\<lambda>text (src, dst). replace src dst text) text replacements"

definition collapse_ws :: "unicode \<Rightarrow> ustring \<Rightarrow> ustring" where
  "collapse_ws U text = join [0x20] (split_ws U text)"

definition normalize_arabic :: "unicode \<Rightarrow> ustring \<Rightarrow> ustring" where
  "normalize_arabic U text =
     (let text = nfkc U text;
          text = filter (\<lambda>ch. combining U ch = 0) text;
          text = replace_variants text;
          text = collapse_ws U text
      in lower U text)"

section \<open>Page matcher\<close>

text \<open>
  What a fetch can raise. The first three are the classes the program names in its
  \<open>except\<close> clause (\<open>RequestException\<close> stands for every other subclass of it, such as a
  connection error). The last two are no subclasses of \<open>RequestException\<close>:
  \<open>LocationParseError\<close> is the one of \<open>urllib3\<close> that \<open>requests.get\<close> lets through for
  a host such as \<open>a..b\<close>, and \<open>UnicodeError\<close> is raised by \<open>resp.text\<close> when the
  declared charset is a codec that refuses its input, such as \<open>undefined\<close>.
\<close>

datatype exception = HTTPError | Timeout | RequestException | LocationParseError | UnicodeError

text \<open>
  \<open>except (requests.HTTPError, requests.Timeout, requests.RequestException)\<close>: what the
  clause of lines 325, 363 and 400 catches.
\<close>

definition is_RequestException :: "exception \<Rightarrow> bool" where
  "is_RequestException e = (e = HTTPError \<or> e = Timeout \<or> e = RequestException)"

record response =
  status_code :: nat
  encoding :: "ustring option"
  apparent_encoding :: "ustring option"
  content :: "nat list"

definition raise_for_status :: "response \<Rightarrow> exception + unit" where
  "raise_for_status resp =
     (if 400 \<le> status_code resp \<and> status_code resp < 600 then Inl HTTPError else Inr ())"

text \<open>\<open>not s\<close> for an optional string: \<open>None\<close> and the empty string are false.\<close>

definition falsy :: "ustring option \<Rightarrow> bool" where
  "falsy s = (case s of None \<Rightarrow> True | Some t \<Rightarrow> t = [])"

text \<open>Lines 89 to 93 of \<open>page_contains_text\<close>: the two assignments to \<open>resp.encoding\<close>.\<close>

definition fix_encoding :: "unicode \<Rightarrow> response \<Rightarrow> response" where
  "fix_encoding U resp =
     (let resp = (if falsy (encoding resp) then resp\<lparr>encoding := apparent_encoding resp\<rparr> else resp)
      in if falsy (encoding resp) \<or> lower U (the (encoding resp)) = ustr ''iso-8859-1''
         then resp\<lparr>encoding := Some (ustr ''utf-8'')\<rparr>
         else resp)"

text \<open>
  \<open>resp.text\<close> decodes the body with \<open>resp.encoding\<close>; the codec \<open>dec\<close> is the runtime's,
  and what it raises is raised by \<open>resp.text\<close>. \<open>get\<close> is \<open>requests.get\<close> with the
  headers, the redirects and the timeout of the call; it returns a response or raises.
\<close>

type_synonym codec = "ustring option \<Rightarrow> nat list \<Rightarrow> exception + ustring"

definition text_of :: "codec \<Rightarrow> response \<Rightarrow> exception + ustring" where
  "text_of dec resp = dec (encoding resp) (content resp)"

definition page_contains_text ::
  "unicode \<Rightarrow> codec \<Rightarrow> (ustring \<Rightarrow> exception + response) \<Rightarrow> ustring \<Rightarrow> ustring \<Rightarrow>
   exception + bool" where
  "page_contains_text U dec get url needle =
     (case get url of
        Inl e \<Rightarrow> Inl e
      | Inr resp \<Rightarrow>
          (case raise_for_status resp of
             Inl e \<Rightarrow> Inl e
           | Inr _ \<Rightarrow>
               (let resp = fix_encoding U resp
                in case text_of dec resp of
                     Inl e \<Rightarrow> Inl e
                   | Inr page_text \<Rightarrow>
                       Inr (str_contains (normalize_arabic U needle)
                              (normalize_arabic U page_text)))))"

text \<open>
  A codec: the one named \<open>undefined\<close> raises \<open>UnicodeError\<close> on every body; under any
  other name each byte is its code point, which is how the single-byte Latin encodings
  decode the bytes where they agree with Unicode (below 0x80 and from 0xA0 on for
  windows-1252).
\<close>

definition py_decode :: codec where
  "py_decode enc body = (if enc = Some (ustr ''undefined'') then Inl UnicodeError else Inr body)"

text \<open>
  A network on which every request is answered by the same response, and a page served
  with a declared single-byte encoding.
\<close>

definition serve :: "response \<Rightarrow> ustring \<Rightarrow> exception + response" where
  "serve resp url = Inr resp"

definition latin_page :: "nat list \<Rightarrow> response" where
  "latin_page body =
     \<lparr>status_code = 200, encoding = Some (ustr ''windows-1252''), apparent_encoding = None,
      content = body\<rparr>"

text \<open>The shape of what \<open>split\<close> returns: non-empty pieces free of whitespace.\<close>

definition words_ok :: "(nat \<Rightarrow> bool) \<Rightarrow> ustring list \<Rightarrow> bool" where
  "words_ok sp ws = (\<forall>w\<in>set ws. w \<noteq> [] \<and> (\<forall>c\<in>set w. \<not> sp c))"

section \<open>Watch tasks\<close>

text \<open>
  A Python \<open>dict\<close> keeps its keys in insertion order: assigning to a key that is there
  replaces the value in place, assigning to a new key appends it.
\<close>

type_synonym ('k, 'v) dict = "('k \<times> 'v) list"

fun dict_set :: "'k \<Rightarrow> 'v \<Rightarrow> ('k, 'v) dict \<Rightarrow> ('k, 'v) dict" where
  "dict_set k v [] = [(k, v)]"
| "dict_set k v (kv # d) = (if fst kv = k then (k, v) # d else kv # dict_set k v d)"

definition dict_get :: "('k, 'v) dict \<Rightarrow> 'k \<Rightarrow> 'v option" where
  "dict_get d k = map_of d k"

definition dict_pop :: "'k \<Rightarrow> ('k, 'v) dict \<Rightarrow> ('k, 'v) dict" where
  "dict_pop k d = filter (\<lambda>kv. fst kv \<noteq> k) d"

definition keys :: "('k, 'v) dict \<Rightarrow> 'k list" where
  "keys d = map fst d"

text \<open>
  The task dictionary of line 250. A state is an \<open>Optional[bool]\<close>: \<open>None\<close> is unknown,
  \<open>True\<close> present, \<open>False\<close> absent. Times and intervals are Python floats; the model is
  generic in their type \<open>'f\<close> and uses its zero, its one, its sum and its order only.
\<close>

record 'f task =
  urls :: "ustring list"
  interval :: 'f
  states :: "(ustring, bool option) dict"
  next_at :: 'f

text \<open>\<open>states.get(url)\<close>: \<open>None\<close> for a missing key as for a stored \<open>None\<close>.\<close>

definition states_get :: "(ustring, bool option) dict \<Rightarrow> ustring \<Rightarrow> bool option" where
  "states_get d url = (case dict_get d url of None \<Rightarrow> None | Some v \<Rightarrow> v)"

text \<open>\<open>{url: None for url in urls}\<close>\<close>

definition init_states :: "ustring list \<Rightarrow> (ustring, bool option) dict" where
  "init_states us = foldl (\<lambda>d url. dict_set url None d) [] us"

text \<open>
  What the program does to the outside: a line printed, a Telegram message sent (token,
  chat, message). A message is one of the program's templates with its arguments.
\<close>

datatype 'f message =
    Found ustring ustring
  | BotRunning
  | NeedUrl
  | Started "ustring list" 'f ustring
  | Stopped
  | NoActiveWatch
  | StatusReport "ustring list" 'f ustring "(bool option \<times> ustring) list"
  | NoActiveWatchUsage
  | HelpText

datatype 'f effect = Print ustring bool | Send ustring ustring "'f message"

record 'f args =
  args_urls :: "ustring list"
  args_timeout :: 'f
  args_find :: ustring
  args_watch :: bool
  args_interval :: 'f
  args_tg_token :: ustring
  args_tg_chat_id :: ustring
  args_bot :: bool

text \<open>\<open>handle_result\<close> returns \<open>exists\<close>; \<open>sought\<close> is the \<open>args.find\<close> it closes over.\<close>

definition handle_result ::
  "ustring \<Rightarrow> ustring \<Rightarrow> bool \<Rightarrow> bool option \<Rightarrow> ustring option \<Rightarrow> ustring option \<Rightarrow>
   bool \<times> 'f effect list" where
  "handle_result sought url exists prev_state notify_token notify_chat =
     (let should_notify = (exists \<and> prev_state \<noteq> Some True)
      in (exists,
          Print url exists #
          (if should_notify \<and> \<not> falsy notify_token \<and> \<not> falsy notify_chat
           then [Send (the notify_token) (the notify_chat) (Found sought url)]
           else [])))"

section \<open>Scheduler\<close>

text \<open>
  The outside world: the \<open>n\<close>-th HTTP request of the run is answered by \<open>http n url\<close>, a
  response or an exception together with the seconds the request took; the \<open>i\<close>-th poll of
  the bot API returns \<open>polled i\<close>; the \<open>i\<close>-th \<open>time.sleep\<close> lasts \<open>slept i\<close>. The
  program's view of it is the clock and the two counters.
\<close>

record inbound =
  msg_chat :: "ustring option"
  msg_text :: "ustring option"

record update =
  update_id :: int
  message :: "inbound option"
  edited_message :: "inbound option"

record 'f net =
  http :: "nat \<Rightarrow> ustring \<Rightarrow> (exception + response) \<times> 'f"
  polled :: "nat \<Rightarrow> update list"
  slept :: "nat \<Rightarrow> 'f"

record 'f world =
  clock :: 'f
  requests :: nat
  iterations :: nat

text \<open>The interpreter's part: Unicode, the codec behind \<open>resp.text\<close>, and \<open>float(s)\<close>
  (\<open>None\<close> for a \<open>ValueError\<close>).\<close>

record 'f runtime =
  uni :: unicode
  codec :: codec
  float_of :: "ustring \<Rightarrow> 'f option"

text \<open>
  A part of the program that runs and either returns a value or is left by an exception
  nobody catches, which ends the process. Either way it has had its effects.
\<close>

type_synonym ('f, 's) run = "(exception \<times> 'f effect list) + ('s \<times> 'f effect list)"

definition then_run :: "('f, 's) run \<Rightarrow> ('s \<Rightarrow> ('f, 't) run) \<Rightarrow> ('f, 't) run" where
  "then_run r f =
     (case r of
        Inl x \<Rightarrow> Inl x
      | Inr x \<Rightarrow>
          (case f (fst x) of
             Inl y \<Rightarrow> Inl (fst y, snd x @ snd y)
           | Inr y \<Rightarrow> Inr (fst y, snd x @ snd y)))"

text \<open>
  The body of the loop over the URLs of a due task, lines 322 to 326: the exceptions of the
  \<open>except\<close> clause are handled as an absent result, any other leaves the loop.
\<close>

definition check_url ::
  "'f runtime \<Rightarrow> 'f::plus net \<Rightarrow> 'f args \<Rightarrow> ustring \<Rightarrow> ustring \<Rightarrow> 'f task \<times> 'f world \<Rightarrow>
   ('f, 'f task \<times> 'f world) run" where
  "check_url R N a chat_id url tw =
     (let task = fst tw; w = snd tw; n = requests w;
          w' = w\<lparr>clock := clock w + snd (http N n url), requests := n + 1\<rparr>;
          prev = states_get (states task) url
      in case page_contains_text (uni R) (codec R) (\<lambda>u. fst (http N n u)) url (args_find a) of
           Inr exists \<Rightarrow>
             (let res = handle_result (args_find a) url exists prev (Some (args_tg_token a))
                          (Some chat_id)
              in Inr ((task\<lparr>states := dict_set url (Some (fst res)) (states task)\<rparr>, w'), snd res))
         | Inl e \<Rightarrow>
             if is_RequestException e then
               (let res = handle_result (args_find a) url False prev (Some (args_tg_token a))
                            (Some chat_id)
                in Inr ((task\<lparr>states := dict_set url (Some (fst res)) (states task)\<rparr>, w'), snd res))
             else Inl (e, []))"

fun sweep ::
  "'f runtime \<Rightarrow> 'f::plus net \<Rightarrow> 'f args \<Rightarrow> ustring \<Rightarrow> ustring list \<Rightarrow> 'f task \<times> 'f world \<Rightarrow>
   ('f, 'f task \<times> 'f world) run" where
  "sweep R N a chat_id [] tw = Inr (tw, [])"
| "sweep R N a chat_id (url # us) tw =
     then_run (check_url R N a chat_id url tw) (sweep R N a chat_id us)"

text \<open>Lines 318 to 329: every task of the table, in order; the due ones are swept.\<close>

fun run_due ::
  "'f runtime \<Rightarrow> 'f::{plus,ord} net \<Rightarrow> 'f args \<Rightarrow> 'f \<Rightarrow> (ustring, 'f task) dict \<Rightarrow> 'f world \<Rightarrow>
   ('f, (ustring, 'f task) dict \<times> 'f world) run" where
  "run_due R N a now [] w = Inr (([], w), [])"
| "run_due R N a now (ct # rest) w =
     (let chat_id = fst ct; task = snd ct
      in if now \<ge> next_at task
         then then_run (sweep R N a chat_id (urls task) (task, w))
                (\<lambda>tw. let task' = (fst tw)\<lparr>next_at := now + interval (fst tw)\<rparr>
                      in then_run (run_due R N a now rest (snd tw))
                           (\<lambda>r. Inr (((chat_id, task') # fst r, snd r), [])))
         else then_run (run_due R N a now rest w)
                (\<lambda>r. Inr (((chat_id, task) # fst r, snd r), [])))"

section \<open>Command interpreter\<close>

definition strip :: "unicode \<Rightarrow> ustring \<Rightarrow> ustring" where
  "strip U s = rev (dropWhile (isspace U) (rev (dropWhile (isspace U) s)))"

definition parse_command :: "unicode \<Rightarrow> ustring \<Rightarrow> ustring \<times> ustring list" where
  "parse_command U txt =
     (case split_ws U (strip U txt) of
        [] \<Rightarrow> ([], [])
      | p # ps \<Rightarrow> (lower U p, ps))"

definition is_url :: "ustring \<Rightarrow> bool" where
  "is_url arg = (prefix (ustr ''http://'') arg \<or> prefix (ustr ''https://'') arg)"

text \<open>The loop of lines 233 to 243 over the arguments, carrying \<open>urls\<close> and \<open>interval\<close>.\<close>

fun watch_args ::
  "(ustring \<Rightarrow> 'f::{one,ord} option) \<Rightarrow> ustring list \<Rightarrow> ustring list \<times> 'f \<Rightarrow> ustring list \<times> 'f" where
  "watch_args fl [] ui = ui"
| "watch_args fl (arg # rest) ui =
     (if is_url arg then watch_args fl rest (fst ui @ [arg], snd ui)
      else (case fl arg of
              Some potential_interval \<Rightarrow>
                if potential_interval \<ge> 1 then watch_args fl rest (fst ui, potential_interval)
                else watch_args fl rest ui
            | None \<Rightarrow> watch_args fl rest ui))"

text \<open>The branches of lines 226 to 314 for one command of one chat.\<close>

definition run_command ::
  "'f::{zero,one,ord} runtime \<Rightarrow> 'f args \<Rightarrow> ustring \<Rightarrow> ustring \<Rightarrow> ustring list \<Rightarrow>
   (ustring, 'f task) dict \<Rightarrow> (ustring, 'f task) dict \<times> 'f effect list" where
  "run_command R a chat_id cmd cmd_args tasks =
     (let token = args_tg_token a in
      if cmd \<in> {ustr ''/watch'', ustr ''watch''} \<and> length cmd_args \<ge> 1 then
        (let ui = watch_args (float_of R) cmd_args ([], args_interval a)
         in if fst ui = [] then (tasks, [Send token chat_id NeedUrl])
            else (dict_set chat_id
                    \<lparr>urls = fst ui, interval = snd ui, states = init_states (fst ui), next_at = 0\<rparr>
                    tasks,
                  [Send token chat_id (Started (fst ui) (snd ui) (args_find a))]))
      else if cmd \<in> {ustr ''/stop'', ustr ''stop''} then
        (if chat_id \<in> set (keys tasks) then (dict_pop chat_id tasks, [Send token chat_id Stopped])
         else (tasks, [Send token chat_id NoActiveWatch]))
      else if cmd \<in> {ustr ''/status'', ustr ''status''} then
        (case dict_get tasks chat_id of
           Some t \<Rightarrow>
             (tasks,
              [Send token chat_id
                 (StatusReport (urls t) (interval t) (args_find a)
                    (map (\<lambda>url. (states_get (states t) url, url)) (urls t)))])
         | None \<Rightarrow> (tasks, [Send token chat_id NoActiveWatchUsage]))
      else if cmd \<in> {ustr ''/help'', ustr ''help'', ustr ''/start'', ustr ''start''} then
        (tasks, [Send token chat_id HelpText])
      else (tasks, []))"

text \<open>The table and the offset of the bot loop.\<close>

record 'f bot =
  tasks :: "(ustring, 'f task) dict"
  next_offset :: "int option"

text \<open>Lines 215 to 224 and the branches: one update.\<close>

definition process_update ::
  "'f::{zero,one,ord} runtime \<Rightarrow> 'f args \<Rightarrow> update \<Rightarrow> 'f bot \<Rightarrow> 'f bot \<times> 'f effect list" where
  "process_update R a upd b =
     (let b = b\<lparr>next_offset :=
                 Some (max (case next_offset b of None \<Rightarrow> 0 | Some n \<Rightarrow> n) (update_id upd + 1))\<rparr>;
          msg = (case message upd of Some m \<Rightarrow> Some m | None \<Rightarrow> edited_message upd)
      in case msg of
           None \<Rightarrow> (b, [])
         | Some m \<Rightarrow>
             (let chat_id = msg_chat m;
                  txt = (case msg_text m of None \<Rightarrow> [] | Some t \<Rightarrow> t)
              in if falsy chat_id \<or> txt = [] then (b, [])
                 else (let pc = parse_command (uni R) txt;
                           r = run_command R a (the chat_id) (fst pc) (snd pc) (tasks b)
                       in (b\<lparr>tasks := fst r\<rparr>, snd r))))"

fun process_updates ::
  "'f::{zero,one,ord} runtime \<Rightarrow> 'f args \<Rightarrow> update list \<Rightarrow> 'f bot \<Rightarrow> 'f bot \<times> 'f effect list" where
  "process_updates R a [] b = (b, [])"
| "process_updates R a (upd # upds) b =
     (let r1 = process_update R a upd b;
          r2 = process_updates R a upds (fst r1)
      in (fst r2, snd r1 @ snd r2))"

text \<open>
  One turn of the \<open>while True\<close> loop: the poll, the due checks at the \<open>now\<close> read from the
  clock, the sleep.
\<close>

definition bot_iteration ::
  "'f::{zero,one,plus,ord} runtime \<Rightarrow> 'f net \<Rightarrow> 'f args \<Rightarrow> 'f bot \<times> 'f world \<Rightarrow>
   ('f, 'f bot \<times> 'f world) run" where
  "bot_iteration R N a bw =
     (let b = fst bw; w = snd bw;
          r1 = process_updates R a (polled N (iterations w)) b;
          now = clock w
      in then_run (Inr (fst r1, snd r1))
           (\<lambda>b1. then_run (run_due R N a now (tasks b1) w)
                   (\<lambda>r2. let w' = snd r2;
                              w'' = w'\<lparr>clock := clock w' + slept N (iterations w),
                                       iterations := iterations w + 1\<rparr>
                          in Inr ((b1\<lparr>tasks := fst r2\<rparr>, w''), []))))"

text \<open>
  The loop ends only when an exception leaves it; \<open>bot_loop k\<close> is its first \<open>k\<close> turns,
  or fewer if one of them is left by an exception.
\<close>

fun bot_loop ::
  "'f::{zero,one,plus,ord} runtime \<Rightarrow> 'f net \<Rightarrow> 'f args \<Rightarrow> nat \<Rightarrow> 'f bot \<times> 'f world \<Rightarrow>
   ('f, 'f bot \<times> 'f world) run" where
  "bot_loop R N a 0 bw = Inr (bw, [])"
| "bot_loop R N a (Suc k) bw = then_run (bot_iteration R N a bw) (bot_loop R N a k)"

section \<open>Startup\<close>

text \<open>
  The default of \<open>--tg-token\<close> (line 155): \<open>os.getenv\<close> with a fallback, the string
  literal \<open>fallback_tg_token\<close> of the source. \<open>parse_tg_token\<close> is what \<open>argparse\<close> puts in \<open>args.tg_token\<close>: the flag when it
  is given, the default otherwise.
\<close>

definition getenv :: "(ustring \<rightharpoonup> ustring) \<Rightarrow> ustring \<Rightarrow> ustring \<Rightarrow> ustring" where
  "getenv environ name dflt = (case environ name of None \<Rightarrow> dflt | Some v \<Rightarrow> v)"

definition fallback_tg_token :: ustring where
  "fallback_tg_token = ustr ''1687980280:AAH9vN-yD619thih9y7MthpB0YLOGs9HMq8''"

definition tg_token_default :: "(ustring \<rightharpoonup> ustring) \<Rightarrow> ustring" where
  "tg_token_default environ = getenv environ (ustr ''TELEGRAM_BOT_TOKEN'') fallback_tg_token"

definition parse_tg_token :: "(ustring \<rightharpoonup> ustring) \<Rightarrow> ustring option \<Rightarrow> ustring" where
  "parse_tg_token environ flag = (case flag of Some v \<Rightarrow> v | None \<Rightarrow> tg_token_default environ)"

datatype exit = SystemExit string

text \<open>Bot mode up to the loop, lines 186 to 209.\<close>

definition bot_start :: "'f args \<Rightarrow> exit + ('f bot \<times> 'f effect list)" where
  "bot_start a =
     (let token = args_tg_token a
      in if token = [] then
           Inl (SystemExit ''Telegram token is required in bot mode (use --tg-token or TELEGRAM_BOT_TOKEN)'')
         else Inr (\<lparr>tasks = [], next_offset = None\<rparr>,
                   [Send token (args_tg_chat_id a) BotRunning]))"

section \<open>Reading the trace\<close>

text \<open>\<open>present_at R N a n url\<close>: the \<open>n\<close>-th request, made for \<open>url\<close>, finds the text.\<close>

definition present_at :: "'f runtime \<Rightarrow> 'f net \<Rightarrow> 'f args \<Rightarrow> nat \<Rightarrow> ustring \<Rightarrow> bool" where
  "present_at R N a n url =
     (page_contains_text (uni R) (codec R) (\<lambda>u. fst (http N n u)) url (args_find a) = Inr True)"

text \<open>
  \<open>escapes R N a n url\<close>: the exception that leaves the check of \<open>url\<close> made with the
  \<open>n\<close>-th request, when the fetch raises one that line 325 does not catch.
\<close>

definition escapes :: "'f runtime \<Rightarrow> 'f net \<Rightarrow> 'f args \<Rightarrow> nat \<Rightarrow> ustring \<Rightarrow> exception option" where
  "escapes R N a n url =
     (case page_contains_text (uni R) (codec R) (\<lambda>u. fst (http N n u)) url (args_find a) of
        Inl e \<Rightarrow> if is_RequestException e then None else Some e
      | Inr ex \<Rightarrow> None)"

text \<open>The effects of a run, whether it returned or not, and the value of one that returned.\<close>

definition trace :: "('f, 's) run \<Rightarrow> 'f effect list" where
  "trace r = (case r of Inl x \<Rightarrow> snd x | Inr x \<Rightarrow> snd x)"

definition final :: "('f, 's) run \<Rightarrow> 's option" where
  "final r = (case r of Inl x \<Rightarrow> None | Inr x \<Rightarrow> Some (fst x))"

text \<open>The notifications for a URL, and the URLs checked, in a trace.\<close>

fun is_found :: "ustring \<Rightarrow> 'f effect \<Rightarrow> bool" where
  "is_found u (Send tok c (Found s v)) = (u = v)"
| "is_found u e = False"

fun printed :: "'f effect list \<Rightarrow> ustring list" where
  "printed [] = []"
| "printed (Print u ex # es) = u # printed es"
| "printed (e # es) = printed es"

section \<open>A concrete runtime and concrete runs\<close>

text \<open>
  \<open>float(s)\<close> on a string of ASCII digits; the instance covers unsigned whole numbers,
  which is all the runs below pass to it, and is silent on any other literal.
\<close>

definition py_float :: "ustring \<Rightarrow> real option" where
  "py_float s =
     (if s \<noteq> [] \<and> list_all (\<lambda>c. 0x30 \<le> c \<and> c \<le> 0x39) s
      then Some (of_nat (foldl (\<lambda>n c. 10 * n + (c - 0x30)) 0 s))
      else None)"

definition py_runtime :: "real runtime" where
  "py_runtime = \<lparr>uni = py_unicode, codec = py_decode, float_of = py_float\<rparr>"

text \<open>
  The arguments of \<open>--bot\<close> alone, or with \<open>--tg-token\<close>, under an environment: the
  defaults of lines 128 to 168.
\<close>

definition bot_args :: "(ustring \<rightharpoonup> ustring) \<Rightarrow> ustring option \<Rightarrow> real args" where
  "bot_args environ flag =
     \<lparr>args_urls = [], args_timeout = 15,
      args_find = [0xD8, 0xB3, 0xD8, 0xAC, 0xD9, 0x201E, 0x20, 0xD8, 0xA7, 0xD9, 0x201E, 0xD8,
                   0xA7, 0xD9, 0x2020],
      args_watch = False, args_interval = 5,
      args_tg_token = parse_tg_token environ flag,
      args_tg_chat_id = getenv environ (ustr ''TELEGRAM_CHAT_ID'') (ustr ''791653669''),
      args_bot = True\<rparr>"

text \<open>The arguments of \<open>--bot --find open --tg-token TOKEN --tg-chat-id 7\<close>.\<close>

definition demo_args :: "real args" where
  "demo_args =
     \<lparr>args_urls = [], args_timeout = 15, args_find = ustr ''open'', args_watch = False,
      args_interval = 5, args_tg_token = ustr ''TOKEN'', args_tg_chat_id = ustr ''7'',
      args_bot = True\<rparr>"

definition page_open :: response where
  "page_open = latin_page (ustr ''Tickets:  OPEN now'')"

definition page_closed :: response where
  "page_closed = latin_page (ustr ''Tickets: closed'')"

text \<open>A message of chat 42 with the given text.\<close>

definition said :: "int \<Rightarrow> string \<Rightarrow> update" where
  "said i txt =
     \<lparr>update_id = i,
      message = Some \<lparr>msg_chat = Some (ustr ''42''), msg_text = Some (ustr txt)\<rparr>,
      edited_message = None\<rparr>"

text \<open>
  A world in which chat 42 sends \<open>/watch https://a.test 1\<close> before the first turn and
  nothing afterwards, the \<open>n\<close>-th request finds the text exactly when \<open>rs ! n\<close> says so,
  every request takes one second and every sleep a fifth of a second.
\<close>

definition demo_net :: "bool list \<Rightarrow> real net" where
  "demo_net rs =
     \<lparr>http = (\<lambda>n url. (Inr (if n < length rs \<and> rs ! n then page_open else page_closed), 1)),
      polled = (\<lambda>i. if i = 0 then [said 1 ''/watch https://a.test 1''] else []),
      slept = (\<lambda>i. 1 / 5)\<rparr>"

text \<open>A world in which nobody writes, no page has the text and a request takes three seconds.\<close>

definition slow_net :: "real net" where
  "slow_net =
     \<lparr>http = (\<lambda>n url. (Inr page_closed, 3)), polled = (\<lambda>i. []), slept = (\<lambda>i. 1 / 5)\<rparr>"

text \<open>A world in which the second request times out and every other one finds the text.\<close>

definition flaky_net :: "real net" where
  "flaky_net =
     \<lparr>http = (\<lambda>n url. (if n = 1 then Inl Timeout else Inr page_open, 1)),
      polled = (\<lambda>i. []), slept = (\<lambda>i. 1 / 5)\<rparr>"

text \<open>
  A world in which the host of \<open>https://a..b\<close> is refused when the request is prepared,
  the page of \<open>https://u.test\<close> declares the charset \<open>undefined\<close>, and every other page
  has the text.
\<close>

definition page_undefined :: response where
  "page_undefined =
     \<lparr>status_code = 200, encoding = Some (ustr ''undefined''), apparent_encoding = None,
      content = ustr ''Tickets:  OPEN now''\<rparr>"

definition trap_net :: "real net" where
  "trap_net =
     \<lparr>http = (\<lambda>n url. (if url = ustr ''https://a..b'' then Inl LocationParseError
                        else if url = ustr ''https://u.test'' then Inr page_undefined
                        else Inr page_open, 1)),
      polled = (\<lambda>i. []), slept = (\<lambda>i. 1 / 5)\<rparr>"

definition fresh_bot :: "real bot" where
  "fresh_bot = \<lparr>tasks = [], next_offset = None\<rparr>"

definition at_time :: "real \<Rightarrow> real world" where
  "at_time t = \<lparr>clock = t, requests = 0, iterations = 0\<rparr>"

text \<open>The state of a URL and the due time in the task of chat 42.\<close>

definition state_of :: "real bot \<Rightarrow> ustring \<Rightarrow> bool option" where
  "state_of b url = (case dict_get (tasks b) (ustr ''42'') of None \<Rightarrow> None | Some t \<Rightarrow> states_get (states t) url)"

text \<open>A world in which nobody writes and every request finds the text.\<close>

definition open_net :: "real net" where
  "open_net =
     \<lparr>http = (\<lambda>n url. (Inr page_open, 1)), polled = (\<lambda>i. []), slept = (\<lambda>i. 1 / 5)\<rparr>"

section \<open>The command grammar in the words of the specification\<close>

text \<open>
  The tokens of a start-watch command that are no URL and parse as a number of at least
  one, in order; the interval of the command is the last of them, or the default.
\<close>

definition interval_tokens :: "(ustring \<Rightarrow> 'f::{one,ord} option) \<Rightarrow> ustring list \<Rightarrow> 'f list" where
  "interval_tokens fl toks =
     List.map_filter
       (\<lambda>tok. if is_url tok then None
              else (case fl tok of None \<Rightarrow> None | Some p \<Rightarrow> if p \<ge> 1 then Some p else None))
       toks"

section \<open>Properties of the string functions\<close>

lemma str_contains_sublist: "str_contains needle hay = sublist needle hay"
  by (induction hay) (auto simp: sublist_Cons_right)

lemma replace_absent_head:
  "old \<noteq> [] \<Longrightarrow> hd old \<notin> set s \<Longrightarrow> replace old new s = s"
proof (induction s)
  case Nil
  then show ?case by simp
next
  case (Cons c cs)
  from Cons.prems have "\<not> prefix old (c # cs)"
    by (cases old) auto
  with Cons show ?case by simp
qed

lemma replace_variants_no_capital:
  "0xD8 \<notin> set s \<Longrightarrow> 0xD9 \<notin> set s \<Longrightarrow> replace_variants s = s"
  by (simp add: replace_variants_def replacements_def replace_absent_head)

lemma split_from_word:
  "\<forall>c\<in>set w. \<not> sp c \<Longrightarrow> split_from sp acc (w @ rest) = split_from sp (acc @ w) rest"
  by (induction w arbitrary: acc) auto

lemma split_from_words_ok:
  "\<forall>c\<in>set acc. \<not> sp c \<Longrightarrow> words_ok sp (split_from sp acc s)"
proof (induction s arbitrary: acc)
  case Nil
  then show ?case by (simp add: words_ok_def)
next
  case (Cons a s)
  have nil: "words_ok sp (split_from sp [] s)"
    by (rule Cons.IH) simp
  show ?case
  proof (cases "sp a")
    case True
    with nil Cons.prems show ?thesis by (simp add: words_ok_def)
  next
    case False
    with Cons.prems have "words_ok sp (split_from sp (acc @ [a]) s)"
      by (intro Cons.IH) simp
    with False show ?thesis by simp
  qed
qed

lemma split_from_join:
  "sp 0x20 \<Longrightarrow> words_ok sp ws \<Longrightarrow> split_from sp [] (join [0x20] ws) = ws"
proof (induction "[0x20::nat]" ws rule: join.induct)
  case 1
  then show ?case by simp
next
  case (2 w)
  then have "split_from sp [] (w @ []) = split_from sp ([] @ w) []"
    by (intro split_from_word) (simp add: words_ok_def)
  with 2 show ?case by (simp add: words_ok_def)
next
  case (3 w v ws)
  from 3 have w: "\<forall>c\<in>set w. \<not> sp c" "w \<noteq> []" and rest: "words_ok sp (v # ws)"
    by (simp_all add: words_ok_def)
  have "split_from sp [] (w @ 0x20 # join [0x20] (v # ws))
          = split_from sp ([] @ w) (0x20 # join [0x20] (v # ws))"
    using w(1) by (rule split_from_word)
  with 3 w rest show ?case by simp
qed

lemma concat_map_join:
  "f 0x20 = [0x20] \<Longrightarrow>
   concat (map f (join [0x20] ws)) = join [0x20] (map (\<lambda>w. concat (map f w)) ws)"
  by (induction "[0x20::nat]" ws rule: join.induct) simp_all

lemma words_ok_map:
  "\<forall>c. \<not> sp c \<longrightarrow> f c \<noteq> [] \<and> (\<forall>d\<in>set (f c). \<not> sp d) \<Longrightarrow> words_ok sp ws \<Longrightarrow>
   words_ok sp (map (\<lambda>w. concat (map f w)) ws)"
proof -
  assume f: "\<forall>c. \<not> sp c \<longrightarrow> f c \<noteq> [] \<and> (\<forall>d\<in>set (f c). \<not> sp d)" and ws: "words_ok sp ws"
  have "concat (map f w) \<noteq> [] \<and> (\<forall>c\<in>set (concat (map f w)). \<not> sp c)"
    if "w \<in> set ws" for w
  proof -
    from ws that obtain c cs where w: "w = c # cs" and nsp: "\<forall>c\<in>set w. \<not> sp c"
      by (auto simp: words_ok_def neq_Nil_conv)
    from nsp f have "\<forall>c\<in>set (concat (map f w)). \<not> sp c"
      by auto
    moreover from w nsp f have "f c \<noteq> []"
      by simp
    ultimately show ?thesis using w by simp
  qed
  then show ?thesis by (simp add: words_ok_def)
qed

lemma collapse_charwise:
  assumes "sp 0x20" "f 0x20 = [0x20]"
    and "\<forall>c. \<not> sp c \<longrightarrow> f c \<noteq> [] \<and> (\<forall>d\<in>set (f c). \<not> sp d)"
  shows "join [0x20] (split_from sp [] (concat (map f (join [0x20] (split_from sp [] s)))))
         = concat (map f (join [0x20] (split_from sp [] s)))"
proof -
  have ok: "words_ok sp (split_from sp [] s)"
    by (rule split_from_words_ok) simp
  then have "words_ok sp (map (\<lambda>w. concat (map f w)) (split_from sp [] s))"
    using assms(3) by (intro words_ok_map)
  then show ?thesis
    using assms(1,2) by (simp add: concat_map_join split_from_join)
qed

lemma py_lower_cp_fix: "concat (map py_lower_cp (py_lower_cp c)) = py_lower_cp c"
  by (simp add: py_lower_cp_def)

lemma py_lower_idem:
  "concat (map py_lower_cp (concat (map py_lower_cp s))) = concat (map py_lower_cp s)"
  by (induction s) (simp_all add: py_lower_cp_fix)

lemma py_lower_no_capital: "0xD8 \<notin> set (concat (map py_lower_cp s)) \<and> 0xD9 \<notin> set (concat (map py_lower_cp s))"
  by (induction s) (auto simp: py_lower_cp_def split: if_splits)

lemma py_lower_space: "\<not> py_isspace c \<longrightarrow> py_lower_cp c \<noteq> [] \<and> (\<forall>d\<in>set (py_lower_cp c). \<not> py_isspace d)"
  by (auto simp: py_lower_cp_def py_isspace_def split: if_splits)

subsection \<open>Evaluating the normalizer\<close>

lemmas py_eval = ustr_def normalize_arabic_def py_unicode_def py_combining_def replace_variants_def
  replacements_def collapse_ws_def split_ws_def py_isspace_def py_lower_cp_def

lemma norm_hello_world: "normalize_arabic py_unicode (ustr ''Hello  World'') = ustr ''hello world''"
  by (simp add: py_eval)

lemma norm_world: "normalize_arabic py_unicode (ustr ''world'') = ustr ''world''"
  by (simp add: py_eval)

lemma norm_hello_woerld:
  "normalize_arabic py_unicode [72, 101, 108, 108, 111, 32, 32, 87, 0xF6, 114, 108, 100]
     = [104, 101, 108, 108, 111, 32, 119, 0xF6, 114, 108, 100]"
  by (simp add: py_eval)

lemma text_latin_page: "text_of py_decode (fix_encoding py_unicode (latin_page body)) = Inr body"
  by (simp add: text_of_def py_decode_def fix_encoding_def latin_page_def falsy_def
      py_unicode_def py_lower_cp_def ustr_def)

lemma py_collapse_lower:
  "collapse_ws py_unicode (lower py_unicode (collapse_ws py_unicode s))
     = lower py_unicode (collapse_ws py_unicode s)"
proof -
  have "py_isspace 0x20" "py_lower_cp 0x20 = [0x20]"
    by (simp_all add: py_isspace_def py_lower_cp_def)
  then show ?thesis
    using collapse_charwise[of py_isspace py_lower_cp s] py_lower_space
    by (simp add: collapse_ws_def split_ws_def py_unicode_def)
qed

section \<open>Properties of dictionaries\<close>

lemma dict_get_set: "dict_get (dict_set k v d) k' = (if k' = k then Some v else dict_get d k')"
  by (induction d) (auto simp: dict_get_def)

lemma keys_dict_set: "keys (dict_set k v d) = (if k \<in> set (keys d) then keys d else keys d @ [k])"
  by (induction d) (auto simp: keys_def)

lemma set_keys_dict_set: "set (keys (dict_set k v d)) = insert k (set (keys d))"
  by (auto simp: keys_dict_set)

lemma distinct_keys_dict_set: "distinct (keys d) \<Longrightarrow> distinct (keys (dict_set k v d))"
  by (simp add: keys_dict_set)

lemma states_get_set:
  "states_get (dict_set k v d) k' = (if k' = k then v else states_get d k')"
  by (simp add: states_get_def dict_get_set)

lemma keys_fold_set:
  "set (keys (foldl (\<lambda>d url. dict_set url v d) d0 us)) = set (keys d0) \<union> set us
   \<and> (distinct (keys d0) \<longrightarrow> distinct (keys (foldl (\<lambda>d url. dict_set url v d) d0 us)))"
  by (induction us arbitrary: d0) (auto simp: set_keys_dict_set distinct_keys_dict_set)

lemma get_fold_set:
  "dict_get (foldl (\<lambda>d url. dict_set url v d) d0 us) u
     = (if u \<in> set us then Some v else dict_get d0 u)"
  by (induction us arbitrary: d0) (auto simp: dict_get_set)

lemma keys_init_states: "set (keys (init_states us)) = set us \<and> distinct (keys (init_states us))"
  using keys_fold_set[of None "[]" us] by (simp add: init_states_def keys_def)

lemma get_init_states: "dict_get (init_states us) u = (if u \<in> set us then Some None else None)"
  by (simp add: init_states_def get_fold_set) (simp add: dict_get_def)

lemma states_get_init: "states_get (init_states us) u = None"
  by (simp add: states_get_def get_init_states)

section \<open>Properties of a check and of a sweep\<close>

lemma then_run_Inl [simp]: "then_run (Inl x) f = Inl x"
  by (simp add: then_run_def)

lemma then_run_Inr:
  "then_run (Inr (s, es)) f =
     (case f s of Inl y \<Rightarrow> Inl (fst y, es @ snd y) | Inr y \<Rightarrow> Inr (fst y, es @ snd y))"
  by (cases "f s") (simp_all add: then_run_def)

lemma then_run_Inr_Inr [simp]:
  "f s = Inr (t, fs) \<Longrightarrow> then_run (Inr (s, es)) f = Inr (t, es @ fs)"
  by (simp add: then_run_Inr)

lemma then_run_Inr_Inl [simp]:
  "f s = Inl (e, fs) \<Longrightarrow> then_run (Inr (s, es)) f = Inl (e, es @ fs)"
  by (simp add: then_run_Inr)

lemma then_run_assoc:
  "then_run (then_run r f) g = then_run r (\<lambda>s. then_run (f s) g)"
  by (auto simp: then_run_def split: sum.splits)

lemma then_run_eq_Inr:
  "then_run r f = Inr (t, es) \<longleftrightarrow>
     (\<exists>s es1 es2. r = Inr (s, es1) \<and> f s = Inr (t, es2) \<and> es = es1 @ es2)"
  by (cases r) (auto simp: then_run_def split: sum.splits)

lemma trace_then_run:
  "trace (then_run r f) = (case r of Inl x \<Rightarrow> snd x | Inr x \<Rightarrow> snd x @ trace (f (fst x)))"
  by (auto simp: then_run_def trace_def split: sum.splits)

lemma trace_simps [simp]: "trace (Inl (e, es)) = es" "trace (Inr (s, es)) = es"
  by (simp_all add: trace_def)

lemma trace_then_run_Inr [simp]: "trace (then_run (Inr (s, es)) f) = es @ trace (f s)"
  by (simp add: trace_then_run)

lemma final_simps [simp]: "final (Inl x) = None" "final (Inr (s, es)) = Some s"
  by (simp_all add: final_def)

lemma handle_result_eq:
  "handle_result sought url ex prev (Some tok) (Some chat) =
     (ex, Print url ex #
          (if ex \<and> prev \<noteq> Some True \<and> tok \<noteq> [] \<and> chat \<noteq> [] then [Send tok chat (Found sought url)]
           else []))"
  by (simp add: handle_result_def falsy_def)

lemma check_url_eq:
  "check_url R N a chat url (task, w) =
     (case escapes R N a (requests w) url of
        Some e \<Rightarrow> Inl (e, [])
      | None \<Rightarrow>
          Inr ((task\<lparr>states := dict_set url (Some (present_at R N a (requests w) url)) (states task)\<rparr>,
                w\<lparr>clock := clock w + snd (http N (requests w) url), requests := requests w + 1\<rparr>),
               Print url (present_at R N a (requests w) url) #
               (if present_at R N a (requests w) url \<and> states_get (states task) url \<noteq> Some True
                   \<and> args_tg_token a \<noteq> [] \<and> chat \<noteq> []
                then [Send (args_tg_token a) chat (Found (args_find a) url)] else [])))"
  by (cases "page_contains_text (uni R) (codec R) (\<lambda>u. fst (http N (requests w) u)) url (args_find a)")
     (auto simp: check_url_def present_at_def escapes_def handle_result_eq Let_def)

lemma check_url_cases:
  obtains (left) e where "escapes R N a (requests w) url = Some e"
      "check_url R N a chat url (task, w) = Inl (e, [])"
  | (returned) "escapes R N a (requests w) url = None"
      "check_url R N a chat url (task, w) =
         Inr ((task\<lparr>states := dict_set url (Some (present_at R N a (requests w) url)) (states task)\<rparr>,
               w\<lparr>clock := clock w + snd (http N (requests w) url), requests := requests w + 1\<rparr>),
              Print url (present_at R N a (requests w) url) #
              (if present_at R N a (requests w) url \<and> states_get (states task) url \<noteq> Some True
                  \<and> args_tg_token a \<noteq> [] \<and> chat \<noteq> []
               then [Send (args_tg_token a) chat (Found (args_find a) url)] else []))"
  by (cases "escapes R N a (requests w) url") (simp_all add: check_url_eq)

lemma sweep_append:
  "sweep R N a chat (us @ vs) tw = then_run (sweep R N a chat us tw) (sweep R N a chat vs)"
proof (induction us arbitrary: tw)
  case Nil
  then show ?case by (cases "sweep R N a chat vs tw") (auto simp: then_run_def)
next
  case (Cons u us)
  have "(\<lambda>s. then_run (sweep R N a chat us s) (sweep R N a chat vs)) = sweep R N a chat (us @ vs)"
    by (rule ext) (simp add: Cons.IH)
  then show ?case
    by (simp add: then_run_assoc)
qed

lemma printed_append: "printed (es @ fs) = printed es @ printed fs"
  by (induction es rule: printed.induct) simp_all

text \<open>What a sweep that returns has done.\<close>

lemma sweep_returned:
  "sweep R N a chat us (t, w) = Inr ((t', w'), es) \<Longrightarrow>
     printed es = us \<and> requests w' = requests w + length us
     \<and> urls t' = urls t \<and> interval t' = interval t \<and> next_at t' = next_at t
     \<and> set (keys (states t')) = set (keys (states t)) \<union> set us
     \<and> (distinct (keys (states t)) \<longrightarrow> distinct (keys (states t')))"
proof (induction us arbitrary: t w es)
  case Nil
  then show ?case by simp
next
  case (Cons u us)
  show ?case
  proof (cases rule: check_url_cases[of R N a w u chat t])
    case (left e)
    with Cons.prems show ?thesis by simp
  next
    case returned
    let ?t = "t\<lparr>states := dict_set u (Some (present_at R N a (requests w) u)) (states t)\<rparr>"
    let ?w = "w\<lparr>clock := clock w + snd (http N (requests w) u), requests := requests w + 1\<rparr>"
    from Cons.prems returned(2) obtain es2 where
      rest: "sweep R N a chat us (?t, ?w) = Inr ((t', w'), es2)" and
      es: "es = (Print u (present_at R N a (requests w) u) #
              (if present_at R N a (requests w) u \<and> states_get (states t) u \<noteq> Some True
                  \<and> args_tg_token a \<noteq> [] \<and> chat \<noteq> []
               then [Send (args_tg_token a) chat (Found (args_find a) u)] else [])) @ es2"
      by (auto simp: then_run_eq_Inr)
    from Cons.IH[OF rest] es show ?thesis
      by (auto simp: printed_append set_keys_dict_set distinct_keys_dict_set)
  qed
qed

text \<open>A sweep returns when no check of it is left by an exception.\<close>

lemma sweep_returns:
  "\<forall>i<length us. escapes R N a (requests w + i) (us ! i) = None \<Longrightarrow>
   \<exists>t' w' es. sweep R N a chat us (t, w) = Inr ((t', w'), es)"
proof (induction us arbitrary: t w)
  case Nil
  then show ?case by simp
next
  case (Cons u us)
  let ?t = "t\<lparr>states := dict_set u (Some (present_at R N a (requests w) u)) (states t)\<rparr>"
  let ?w = "w\<lparr>clock := clock w + snd (http N (requests w) u), requests := requests w + 1\<rparr>"
  from Cons.prems have here: "escapes R N a (requests w) u = None"
    by auto
  have later: "\<forall>i<length us. escapes R N a (requests ?w + i) (us ! i) = None"
    using Cons.prems by fastforce
  from Cons.IH[OF later, of ?t] obtain t' w' es where
    "sweep R N a chat us (?t, ?w) = Inr ((t', w'), es)"
    by blast
  with here show ?case
    by (simp add: check_url_eq)
qed

lemma sweep_present_quiet:
  assumes "\<forall>i<length us. us ! i = u \<longrightarrow> present_at R N a (requests w + i) u"
    and "states_get (states t) u = Some True"
  shows "filter (is_found u) (trace (sweep R N a chat us (t, w))) = []"
  using assms
proof (induction us arbitrary: t w)
  case Nil
  then show ?case by simp
next
  case (Cons v us)
  show ?case
  proof (cases rule: check_url_cases[of R N a w v chat t])
    case (left e)
    then show ?thesis by simp
  next
    case returned
    let ?t = "t\<lparr>states := dict_set v (Some (present_at R N a (requests w) v)) (states t)\<rparr>"
    let ?w = "w\<lparr>clock := clock w + snd (http N (requests w) v), requests := requests w + 1\<rparr>"
    from Cons.prems(1) have here: "v = u \<longrightarrow> present_at R N a (requests w) u"
      by auto
    have later: "\<forall>i<length us. us ! i = u \<longrightarrow> present_at R N a (requests ?w + i) u"
      using Cons.prems(1) by fastforce
    have "states_get (states ?t) u = Some True"
      using Cons.prems(2) here by (auto simp: states_get_set)
    from Cons.IH[OF later this] Cons.prems(2) here returned(2) show ?thesis
      by (auto simp: trace_then_run)
  qed
qed

lemma sweep_found_once:
  assumes "\<forall>i<length us. us ! i = u \<longrightarrow> present_at R N a (requests w + i) u"
  shows "length (filter (is_found u) (trace (sweep R N a chat us (t, w)))) \<le> 1"
  using assms
proof (induction us arbitrary: t w)
  case Nil
  then show ?case by simp
next
  case (Cons v us)
  show ?case
  proof (cases rule: check_url_cases[of R N a w v chat t])
    case (left e)
    then show ?thesis by simp
  next
    case returned
    let ?t = "t\<lparr>states := dict_set v (Some (present_at R N a (requests w) v)) (states t)\<rparr>"
    let ?w = "w\<lparr>clock := clock w + snd (http N (requests w) v), requests := requests w + 1\<rparr>"
    from Cons.prems have here: "v = u \<longrightarrow> present_at R N a (requests w) u"
      by auto
    have later: "\<forall>i<length us. us ! i = u \<longrightarrow> present_at R N a (requests ?w + i) u"
      using Cons.prems by fastforce
    show ?thesis
    proof (cases "v = u")
      case True
      have "states_get (states ?t) u = Some True"
        using True here by (simp add: states_get_set)
      from sweep_present_quiet[OF later this, of chat] returned(2)
      show ?thesis by (simp add: trace_then_run)
    next
      case False
      with Cons.IH[OF later, of ?t] returned(2) show ?thesis
        by (simp add: trace_then_run)
    qed
  qed
qed

section \<open>Properties of the scheduler tick\<close>

lemma run_due_returned:
  "run_due R N a now ts w = Inr ((ts', w'), es) \<Longrightarrow>
     keys ts' = keys ts
     \<and> (\<forall>i<length ts.
           (now \<ge> next_at (snd (ts ! i)) \<longrightarrow>
              next_at (snd (ts' ! i)) = now + interval (snd (ts ! i))
              \<and> interval (snd (ts' ! i)) = interval (snd (ts ! i))
              \<and> urls (snd (ts' ! i)) = urls (snd (ts ! i)))
           \<and> (\<not> now \<ge> next_at (snd (ts ! i)) \<longrightarrow> ts' ! i = ts ! i))"
proof (induction ts arbitrary: w ts' es)
  case Nil
  then show ?case by (simp add: keys_def)
next
  case (Cons ct ts)
  obtain c t where ct: "ct = (c, t)" by (cases ct)
  show ?case
  proof (cases "now \<ge> next_at t")
    case True
    with Cons.prems ct obtain t1 w1 es1 rest es2 where
      sw: "sweep R N a c (urls t) (t, w) = Inr ((t1, w1), es1)" and
      rd: "run_due R N a now ts w1 = Inr ((rest, w'), es2)" and
      ts': "ts' = (c, t1\<lparr>next_at := now + interval t1\<rparr>) # rest"
      by (auto simp: then_run_eq_Inr Let_def)
    from sweep_returned[OF sw] have f: "urls t1 = urls t" "interval t1 = interval t"
      by simp_all
    from Cons.IH[OF rd] have k: "keys rest = keys ts" and
      n: "\<forall>i<length ts.
           (now \<ge> next_at (snd (ts ! i)) \<longrightarrow>
              next_at (snd (rest ! i)) = now + interval (snd (ts ! i))
              \<and> interval (snd (rest ! i)) = interval (snd (ts ! i))
              \<and> urls (snd (rest ! i)) = urls (snd (ts ! i)))
           \<and> (\<not> now \<ge> next_at (snd (ts ! i)) \<longrightarrow> rest ! i = ts ! i)"
      by simp_all
    have "keys ts' = keys (ct # ts)"
      using k by (simp add: ts' ct keys_def)
    moreover have "(now \<ge> next_at (snd ((ct # ts) ! i)) \<longrightarrow>
              next_at (snd (ts' ! i)) = now + interval (snd ((ct # ts) ! i))
              \<and> interval (snd (ts' ! i)) = interval (snd ((ct # ts) ! i))
              \<and> urls (snd (ts' ! i)) = urls (snd ((ct # ts) ! i)))
           \<and> (\<not> now \<ge> next_at (snd ((ct # ts) ! i)) \<longrightarrow> ts' ! i = (ct # ts) ! i)"
      if "i < length (ct # ts)" for i
      using that n True f by (cases i) (simp_all add: ts' ct)
    ultimately show ?thesis by blast
  next
    case False
    with Cons.prems ct obtain rest es2 where
      rd: "run_due R N a now ts w = Inr ((rest, w'), es2)" and
      ts': "ts' = (c, t) # rest"
      by (auto simp: then_run_eq_Inr Let_def)
    from Cons.IH[OF rd] have k: "keys rest = keys ts" and
      n: "\<forall>i<length ts.
           (now \<ge> next_at (snd (ts ! i)) \<longrightarrow>
              next_at (snd (rest ! i)) = now + interval (snd (ts ! i))
              \<and> interval (snd (rest ! i)) = interval (snd (ts ! i))
              \<and> urls (snd (rest ! i)) = urls (snd (ts ! i)))
           \<and> (\<not> now \<ge> next_at (snd (ts ! i)) \<longrightarrow> rest ! i = ts ! i)"
      by simp_all
    have "keys ts' = keys (ct # ts)"
      using k by (simp add: ts' ct keys_def)
    moreover have "(now \<ge> next_at (snd ((ct # ts) ! i)) \<longrightarrow>
              next_at (snd (ts' ! i)) = now + interval (snd ((ct # ts) ! i))
              \<and> interval (snd (ts' ! i)) = interval (snd ((ct # ts) ! i))
              \<and> urls (snd (ts' ! i)) = urls (snd ((ct # ts) ! i)))
           \<and> (\<not> now \<ge> next_at (snd ((ct # ts) ! i)) \<longrightarrow> ts' ! i = (ct # ts) ! i)"
      if "i < length (ct # ts)" for i
      using that n False by (cases i) (simp_all add: ts' ct)
    ultimately show ?thesis by blast
  qed
qed

text \<open>A tick returns when no check is ever left by an exception.\<close>

lemma run_due_returns:
  "\<forall>n u. escapes R N a n u = None \<Longrightarrow> \<exists>ts' w' es. run_due R N a now ts w = Inr ((ts', w'), es)"
proof (induction ts arbitrary: w)
  case Nil
  then show ?case by simp
next
  case (Cons ct ts)
  obtain c t where ct: "ct = (c, t)" by (cases ct)
  from Cons.prems have "\<forall>i<length (urls t). escapes R N a (requests w + i) (urls t ! i) = None"
    by simp
  from sweep_returns[OF this, of c t] obtain t1 w1 es1 where
    sw: "sweep R N a c (urls t) (t, w) = Inr ((t1, w1), es1)"
    by blast
  from Cons.IH[OF Cons.prems, of w1] obtain r1 v1 e1 where
    rd1: "run_due R N a now ts w1 = Inr ((r1, v1), e1)"
    by blast
  from Cons.IH[OF Cons.prems, of w] obtain r2 v2 e2 where
    rd2: "run_due R N a now ts w = Inr ((r2, v2), e2)"
    by blast
  show ?case
    by (cases "now \<ge> next_at t") (simp_all add: ct sw rd1 rd2 Let_def)
qed

section \<open>Evaluating the concrete runs\<close>

lemma norm_open: "normalize_arabic py_unicode (ustr ''open'') = ustr ''open''"
  by (simp add: py_eval)

lemma norm_page_open:
  "normalize_arabic py_unicode (ustr ''Tickets:  OPEN now'') = ustr ''tickets: open now''"
  by (simp add: py_eval)

lemma norm_page_closed:
  "normalize_arabic py_unicode (ustr ''Tickets: closed'') = ustr ''tickets: closed''"
  by (simp add: py_eval)

lemma contains_open:
  "str_contains (ustr ''open'') (ustr ''tickets: open now'')"
  "\<not> str_contains (ustr ''open'') (ustr ''tickets: closed'')"
  by (simp_all add: ustr_def)

lemma latin_page_ok: "raise_for_status (latin_page body) = Inr ()"
  by (simp add: raise_for_status_def latin_page_def)

lemma page_open_found:
  "get url = Inr page_open \<Longrightarrow>
   page_contains_text py_unicode py_decode get url (ustr ''open'') = Inr True"
  by (simp add: page_contains_text_def page_open_def latin_page_ok text_latin_page norm_open
      norm_page_open contains_open)

lemma page_closed_not_found:
  "get url = Inr page_closed \<Longrightarrow>
   page_contains_text py_unicode py_decode get url (ustr ''open'') = Inr False"
  by (simp add: page_contains_text_def page_closed_def latin_page_ok text_latin_page norm_open
      norm_page_closed contains_open)

lemma page_undefined_raises:
  "get url = Inr page_undefined \<Longrightarrow>
   page_contains_text py_unicode py_decode get url needle = Inl UnicodeError"
proof -
  have "ustr ''undefined'' \<noteq> []" "ustr ''undefined'' \<noteq> ustr ''iso-8859-1''"
    by (simp_all add: ustr_def)
  moreover have "lower py_unicode (ustr ''undefined'') = ustr ''undefined''"
    by (simp add: py_unicode_def py_lower_cp_def ustr_def)
  ultimately have "text_of py_decode (fix_encoding py_unicode page_undefined) = Inl UnicodeError"
    by (simp add: text_of_def py_decode_def fix_encoding_def page_undefined_def falsy_def)
  moreover assume "get url = Inr page_undefined"
  ultimately show ?thesis
    by (simp add: page_contains_text_def raise_for_status_def)
       (simp add: page_undefined_def)
qed

lemma py_runtime_simps:
  "uni py_runtime = py_unicode" "codec py_runtime = py_decode" "float_of py_runtime = py_float"
  by (simp_all add: py_runtime_def)

lemma demo_args_simps:
  "args_find demo_args = ustr ''open''" "args_tg_token demo_args = ustr ''TOKEN''"
  "args_interval demo_args = 5"
  by (simp_all add: demo_args_def)

lemma demo_check:
  "page_contains_text py_unicode py_decode (\<lambda>u. fst (http (demo_net rs) n u)) url (ustr ''open'')
     = Inr (n < length rs \<and> rs ! n)"
  by (simp add: demo_net_def page_open_found page_closed_not_found)

lemma demo_present:
  "present_at py_runtime (demo_net rs) demo_args n url = (n < length rs \<and> rs ! n)"
  by (simp add: present_at_def py_runtime_simps demo_args_simps demo_check)

lemma demo_escapes: "escapes py_runtime (demo_net rs) demo_args n url = None"
  by (simp add: escapes_def py_runtime_simps demo_args_simps demo_check)

lemma slow_check:
  "page_contains_text py_unicode py_decode (\<lambda>u. fst (http slow_net n u)) url (ustr ''open'')
     = Inr False"
  by (simp add: slow_net_def page_closed_not_found)

lemma slow_present: "present_at py_runtime slow_net demo_args n url = False"
  by (simp add: present_at_def py_runtime_simps demo_args_simps slow_check)

lemma slow_escapes: "escapes py_runtime slow_net demo_args n url = None"
  by (simp add: escapes_def py_runtime_simps demo_args_simps slow_check)

lemma open_check:
  "page_contains_text py_unicode py_decode (\<lambda>u. fst (http open_net n u)) url (ustr ''open'')
     = Inr True"
  by (simp add: open_net_def page_open_found)

lemma open_present: "present_at py_runtime open_net demo_args n url"
  by (simp add: present_at_def py_runtime_simps demo_args_simps open_check)

lemma open_escapes: "escapes py_runtime open_net demo_args n url = None"
  by (simp add: escapes_def py_runtime_simps demo_args_simps open_check)

lemma flaky_check:
  "page_contains_text py_unicode py_decode (\<lambda>u. fst (http flaky_net n u)) url (ustr ''open'')
     = (if n = 1 then Inl Timeout else Inr True)"
proof (cases "n = 1")
  case True
  then show ?thesis
    by (simp add: flaky_net_def page_contains_text_def)
next
  case False
  then have "fst (http flaky_net n url) = Inr page_open"
    by (simp add: flaky_net_def)
  then have "page_contains_text py_unicode py_decode (\<lambda>u. fst (http flaky_net n u)) url
               (ustr ''open'') = Inr True"
    by (rule page_open_found)
  with False show ?thesis by simp
qed

lemma flaky_present: "present_at py_runtime flaky_net demo_args n url = (n \<noteq> 1)"
  by (simp add: present_at_def py_runtime_simps demo_args_simps flaky_check)

lemma flaky_escapes: "escapes py_runtime flaky_net demo_args n url = None"
  by (simp add: escapes_def py_runtime_simps demo_args_simps flaky_check is_RequestException_def)

lemma trap_check:
  "page_contains_text py_unicode py_decode (\<lambda>u. fst (http trap_net n u)) url (ustr ''open'')
     = (if url = ustr ''https://a..b'' then Inl LocationParseError
        else if url = ustr ''https://u.test'' then Inl UnicodeError
        else Inr True)"
proof -
  consider (parse) "url = ustr ''https://a..b''"
    | (charset) "url \<noteq> ustr ''https://a..b''" "url = ustr ''https://u.test''"
    | (page) "url \<noteq> ustr ''https://a..b''" "url \<noteq> ustr ''https://u.test''"
    by blast
  then show ?thesis
  proof cases
    case parse
    then show ?thesis
      by (simp add: trap_net_def page_contains_text_def)
  next
    case charset
    then have "fst (http trap_net n url) = Inr page_undefined"
      by (simp add: trap_net_def)
    then have "page_contains_text py_unicode py_decode (\<lambda>u. fst (http trap_net n u)) url
                 (ustr ''open'') = Inl UnicodeError"
      by (rule page_undefined_raises)
    with charset show ?thesis by simp
  next
    case page
    then have "fst (http trap_net n url) = Inr page_open"
      by (simp add: trap_net_def)
    then have "page_contains_text py_unicode py_decode (\<lambda>u. fst (http trap_net n u)) url
                 (ustr ''open'') = Inr True"
      by (rule page_open_found)
    with page show ?thesis by simp
  qed
qed

lemma trap_present:
  "present_at py_runtime trap_net demo_args n url
     = (url \<noteq> ustr ''https://a..b'' \<and> url \<noteq> ustr ''https://u.test'')"
  by (simp add: present_at_def py_runtime_simps demo_args_simps trap_check)

lemma trap_escapes:
  "escapes py_runtime trap_net demo_args n url
     = (if url = ustr ''https://a..b'' then Some LocationParseError
        else if url = ustr ''https://u.test'' then Some UnicodeError
        else None)"
  by (simp add: escapes_def py_runtime_simps demo_args_simps trap_check is_RequestException_def)

lemma demo_net_simps:
  "polled (demo_net rs) 0 = [said 1 ''/watch https://a.test 1'']"
  "0 < i \<Longrightarrow> polled (demo_net rs) i = []"
  "slept (demo_net rs) i = 1 / 5"
  "snd (http (demo_net rs) n url) = 1"
  by (simp_all add: demo_net_def)

lemma slow_net_simps:
  "polled slow_net i = []" "slept slow_net i = 1 / 5" "snd (http slow_net n url) = 3"
  by (simp_all add: slow_net_def)

lemma flaky_net_simps:
  "polled flaky_net i = []" "slept flaky_net i = 1 / 5" "snd (http flaky_net n url) = 1"
  by (simp_all add: flaky_net_def)

lemma open_net_simps:
  "polled open_net i = []" "slept open_net i = 1 / 5" "snd (http open_net n url) = 1"
  by (simp_all add: open_net_def)

lemma trap_net_simps:
  "polled trap_net i = []" "slept trap_net i = 1 / 5" "snd (http trap_net n url) = 1"
  by (simp_all add: trap_net_def)

lemma ustr_nonempty: "ustr ''TOKEN'' \<noteq> []" "ustr ''42'' \<noteq> []"
  by (simp_all add: ustr_def)

lemma watch_command_parsed:
  "parse_command py_unicode (ustr ''/watch https://a.test 1'')
     = (ustr ''/watch'', [ustr ''https://a.test'', ustr ''1''])"
  by (simp add: parse_command_def strip_def split_ws_def py_unicode_def py_isspace_def
      py_lower_cp_def ustr_def)

lemma watch_command_args:
  "watch_args py_float [ustr ''https://a.test'', ustr ''1''] ([], 5) = ([ustr ''https://a.test''], 1)"
  by (simp add: is_url_def py_float_def ustr_def)

lemma demo_first_poll:
  "process_updates py_runtime demo_args [said 1 ''/watch https://a.test 1''] fresh_bot =
     (\<lparr>tasks = [(ustr ''42'',
                 \<lparr>urls = [ustr ''https://a.test''], interval = 1,
                  states = [(ustr ''https://a.test'', None)], next_at = 0\<rparr>)],
       next_offset = Some 2\<rparr>,
      [Send (ustr ''TOKEN'') (ustr ''42'') (Started [ustr ''https://a.test''] 1 (ustr ''open''))])"
proof -
  have cmd: "run_command py_runtime demo_args (ustr ''42'') (ustr ''/watch'')
               [ustr ''https://a.test'', ustr ''1''] [] =
             ([(ustr ''42'',
                 \<lparr>urls = [ustr ''https://a.test''], interval = 1,
                  states = [(ustr ''https://a.test'', None)], next_at = 0\<rparr>)],
              [Send (ustr ''TOKEN'') (ustr ''42'') (Started [ustr ''https://a.test''] 1 (ustr ''open''))])"
    using watch_command_args
    by (simp add: run_command_def py_runtime_simps demo_args_def init_states_def)
  have chat: "ustr ''42'' \<noteq> []" "ustr ''/watch https://a.test 1'' \<noteq> []"
    by (simp_all add: ustr_def)
  show ?thesis
    using chat
    by (simp add: said_def fresh_bot_def process_update_def falsy_def Let_def
        py_runtime_simps watch_command_parsed cmd)
qed

lemma demo_turn_1:
  "bot_iteration py_runtime (demo_net (r0 # rs)) demo_args (fresh_bot, at_time 0) =
     Inr ((\<lparr>tasks = [(ustr ''42'',
                  \<lparr>urls = [ustr ''https://a.test''], interval = 1,
                   states = [(ustr ''https://a.test'', Some r0)], next_at = 1\<rparr>)],
        next_offset = Some 2\<rparr>,
       \<lparr>clock = 6 / 5, requests = 1, iterations = 1\<rparr>),
      Send (ustr ''TOKEN'') (ustr ''42'') (Started [ustr ''https://a.test''] 1 (ustr ''open'')) #
      Print (ustr ''https://a.test'') r0 #
      (if r0 then [Send (ustr ''TOKEN'') (ustr ''42'') (Found (ustr ''open'') (ustr ''https://a.test''))]
       else []))"
  by (simp add: bot_iteration_def at_time_def demo_first_poll demo_net_simps Let_def check_url_eq
      demo_present demo_escapes demo_args_simps ustr_nonempty states_get_def dict_get_def
      then_run_Inr del: process_updates.simps)

lemma demo_turn_next:
  assumes "t \<le> c" and "n < length rs" and "0 < i"
  shows
  "bot_iteration py_runtime (demo_net rs) demo_args
     (\<lparr>tasks = [(ustr ''42'',
                 \<lparr>urls = [ustr ''https://a.test''], interval = 1,
                  states = [(ustr ''https://a.test'', Some prev)], next_at = t\<rparr>)],
       next_offset = off\<rparr>,
      \<lparr>clock = c, requests = n, iterations = i\<rparr>) =
     Inr ((\<lparr>tasks = [(ustr ''42'',
                  \<lparr>urls = [ustr ''https://a.test''], interval = 1,
                   states = [(ustr ''https://a.test'', Some (rs ! n))], next_at = c + 1\<rparr>)],
        next_offset = off\<rparr>,
       \<lparr>clock = c + 1 + 1 / 5, requests = n + 1, iterations = i + 1\<rparr>),
      Print (ustr ''https://a.test'') (rs ! n) #
      (if rs ! n \<and> \<not> prev
       then [Send (ustr ''TOKEN'') (ustr ''42'') (Found (ustr ''open'') (ustr ''https://a.test''))]
       else []))"
  using assms
  by (simp add: bot_iteration_def demo_net_simps Let_def check_url_eq
      demo_present demo_escapes demo_args_simps ustr_nonempty states_get_def dict_get_def
      then_run_Inr)

section \<open>Properties of the command interpreter\<close>

lemma watch_args_eq:
  "watch_args fl toks (us, iv) = (us @ filter is_url toks, last (iv # interval_tokens fl toks))"
proof (induction toks arbitrary: us iv)
  case Nil
  then show ?case by (simp add: interval_tokens_def map_filter_simps)
next
  case (Cons tok toks)
  show ?case
  proof (cases "is_url tok")
    case True
    then show ?thesis
      by (simp add: Cons.IH interval_tokens_def map_filter_simps)
  next
    case False
    then show ?thesis
      by (cases "fl tok") (simp_all add: Cons.IH interval_tokens_def map_filter_simps)
  qed
qed

lemma run_command_watch:
  assumes "cmd \<in> {ustr ''/watch'', ustr ''watch''}" and "cmd_args \<noteq> []"
  shows "run_command R a chat cmd cmd_args ts =
     (if filter is_url cmd_args = [] then (ts, [Send (args_tg_token a) chat NeedUrl])
      else (dict_set chat
              \<lparr>urls = filter is_url cmd_args,
               interval = last (args_interval a # interval_tokens (float_of R) cmd_args),
               states = init_states (filter is_url cmd_args), next_at = 0\<rparr> ts,
            [Send (args_tg_token a) chat
               (Started (filter is_url cmd_args)
                  (last (args_interval a # interval_tokens (float_of R) cmd_args)) (args_find a))]))"
proof -
  have "length cmd_args \<ge> 1"
    using assms(2) by (cases cmd_args) simp_all
  with assms(1) show ?thesis
    by (simp add: run_command_def watch_args_eq Let_def)
qed

section \<open>The chats of the table\<close>

lemma run_command_keys:
  "set (keys (fst (run_command R a chat cmd cmd_args ts))) \<subseteq> insert chat (set (keys ts))"
proof -
  have pop: "set (keys (dict_pop chat ts)) \<subseteq> insert chat (set (keys ts))"
    by (auto simp: dict_pop_def keys_def)
  have same: "set (keys ts) \<subseteq> insert chat (set (keys ts))"
    by auto
  consider (watch) "cmd \<in> {ustr ''/watch'', ustr ''watch''} \<and> length cmd_args \<ge> 1"
    | (stop) "\<not> (cmd \<in> {ustr ''/watch'', ustr ''watch''} \<and> length cmd_args \<ge> 1)"
        "cmd \<in> {ustr ''/stop'', ustr ''stop''}"
    | (other) "\<not> (cmd \<in> {ustr ''/watch'', ustr ''watch''} \<and> length cmd_args \<ge> 1)"
        "cmd \<notin> {ustr ''/stop'', ustr ''stop''}"
    by blast
  then show ?thesis
  proof cases
    case watch
    then have "fst (run_command R a chat cmd cmd_args ts) = ts
        \<or> (\<exists>t. fst (run_command R a chat cmd cmd_args ts) = dict_set chat t ts)"
      unfolding run_command_def Let_def by (simp only: if_True fst_conv split: if_split) blast
    then show ?thesis by (auto simp: set_keys_dict_set)
  next
    case stop
    then have "fst (run_command R a chat cmd cmd_args ts) = ts
        \<or> fst (run_command R a chat cmd cmd_args ts) = dict_pop chat ts"
      unfolding run_command_def Let_def by (simp only: if_True if_False fst_conv split: if_split) blast
    with pop same show ?thesis by auto
  next
    case other
    then have "fst (run_command R a chat cmd cmd_args ts) = ts"
      unfolding run_command_def Let_def
      by (simp only: if_True if_False fst_conv split: if_split option.split) simp
    with same show ?thesis by simp
  qed
qed

lemma process_update_chats:
  assumes "[] \<notin> set (keys (tasks b))"
  shows "[] \<notin> set (keys (tasks (fst (process_update R a upd b))))"
proof (cases "case message upd of Some m \<Rightarrow> Some m | None \<Rightarrow> edited_message upd")
  case None
  with assms show ?thesis by (simp add: process_update_def Let_def)
next
  case (Some m)
  show ?thesis
  proof (cases "falsy (msg_chat m) \<or> (case msg_text m of None \<Rightarrow> [] | Some t \<Rightarrow> t) = []")
    case True
    with Some assms show ?thesis by (simp add: process_update_def Let_def)
  next
    case False
    then obtain c where c: "msg_chat m = Some c" "c \<noteq> []"
      by (cases "msg_chat m") (auto simp: falsy_def)
    from run_command_keys[of R a c] assms c(2)
    have "[] \<notin> set (keys (fst (run_command R a c cmd cmd_args (tasks b))))" for cmd cmd_args
      by blast
    with Some False c show ?thesis
      by (simp add: process_update_def Let_def)
  qed
qed

lemma process_updates_chats:
  "[] \<notin> set (keys (tasks b)) \<Longrightarrow> [] \<notin> set (keys (tasks (fst (process_updates R a upds b))))"
proof (induction upds arbitrary: b)
  case Nil
  then show ?case by simp
next
  case (Cons upd upds)
  from Cons.prems have "[] \<notin> set (keys (tasks (fst (process_update R a upd b))))"
    by (rule process_update_chats)
  from Cons.IH[OF this] show ?case by (simp add: Let_def)
qed

lemma bot_iteration_returned:
  "bot_iteration R N a (b, w) = Inr ((b', w'), es) \<longleftrightarrow>
     (\<exists>ts' w1 es2.
        run_due R N a (clock w) (tasks (fst (process_updates R a (polled N (iterations w)) b))) w
          = Inr ((ts', w1), es2)
        \<and> b' = (fst (process_updates R a (polled N (iterations w)) b))\<lparr>tasks := ts'\<rparr>
        \<and> w' = w1\<lparr>clock := clock w1 + slept N (iterations w), iterations := iterations w + 1\<rparr>
        \<and> es = snd (process_updates R a (polled N (iterations w)) b) @ es2)"
proof -
  obtain b1 es1 where pu: "process_updates R a (polled N (iterations w)) b = (b1, es1)"
    by (cases "process_updates R a (polled N (iterations w)) b")
  show ?thesis
    by (cases "run_due R N a (clock w) (tasks b1) w")
       (auto simp: bot_iteration_def Let_def pu then_run_def)
qed

lemma bot_iteration_chats:
  assumes "[] \<notin> set (keys (tasks b))" and "bot_iteration R N a (b, w) = Inr ((b', w'), es)"
  shows "[] \<notin> set (keys (tasks b'))"
proof -
  from assms(2) obtain ts' w1 es2 where
    rd: "run_due R N a (clock w) (tasks (fst (process_updates R a (polled N (iterations w)) b))) w
          = Inr ((ts', w1), es2)" and
    b': "b' = (fst (process_updates R a (polled N (iterations w)) b))\<lparr>tasks := ts'\<rparr>"
    unfolding bot_iteration_returned by blast
  from run_due_returned[OF rd]
  have "keys ts' = keys (tasks (fst (process_updates R a (polled N (iterations w)) b)))"
    by simp
  with process_updates_chats[OF assms(1), of R a "polled N (iterations w)"] b'
  show ?thesis by simp
qed

lemma bot_loop_chats:
  "[] \<notin> set (keys (tasks b)) \<Longrightarrow> bot_loop R N a k (b, w) = Inr ((b', w'), es) \<Longrightarrow>
   [] \<notin> set (keys (tasks b'))"
proof (induction k arbitrary: b w es)
  case 0
  then show ?case by simp
next
  case (Suc k)
  from Suc.prems(2) obtain b1 w1 es1 es2 where
    it: "bot_iteration R N a (b, w) = Inr ((b1, w1), es1)" and
    lp: "bot_loop R N a k (b1, w1) = Inr ((b', w'), es2)"
    by (auto simp: then_run_eq_Inr)
  from Suc.prems(1) it have "[] \<notin> set (keys (tasks b1))"
    by (rule bot_iteration_chats)
  from Suc.IH[OF this lp] show ?case .
qed

lemma bot_start_token:
  "bot_start a = Inr (b0, es) \<Longrightarrow> args_tg_token a \<noteq> [] \<and> tasks b0 = []"
  by (auto simp: bot_start_def Let_def split: if_splits)

text \<open>The loop goes on as long as no check is left by an exception.\<close>

lemma bot_loop_returns:
  assumes "\<forall>n u. escapes R N a n u = None"
  shows "\<exists>b' w' es. bot_loop R N a k (b, w) = Inr ((b', w'), es)"
proof (induction k arbitrary: b w)
  case 0
  then show ?case by simp
next
  case (Suc k)
  from run_due_returns[OF assms] obtain ts' w1 es2 where
    "run_due R N a (clock w) (tasks (fst (process_updates R a (polled N (iterations w)) b))) w
       = Inr ((ts', w1), es2)"
    by blast
  then obtain b1 v1 es1 where it: "bot_iteration R N a (b, w) = Inr ((b1, v1), es1)"
    using bot_iteration_returned[of R N a b w] by blast
  from Suc.IH[of b1 v1] obtain b' w' es where "bot_loop R N a k (b1, v1) = Inr ((b', w'), es)"
    by blast
  with it show ?case by simp
qed

section \<open>The matcher and the normalizer\<close>

text \<open>
  C4 (amended). The containment check returns true exactly when the normalized needle is a
  substring of the normalized page text, for every page fetched with a success status and
  decoded; what the fetch or the decoding raises, and the error of an error status, is
  raised by the check. A page reading "Hello  World" matches the needle "world": case and
  spacing are folded.
\<close>

theorem page_contains_text_iff:
  "page_contains_text U dec get url needle =
     (case get url of
        Inl e \<Rightarrow> Inl e
      | Inr resp \<Rightarrow>
          if 400 \<le> status_code resp \<and> status_code resp < 600 then Inl HTTPError
          else (case text_of dec (fix_encoding U resp) of
                  Inl e \<Rightarrow> Inl e
                | Inr page_text \<Rightarrow>
                    Inr (sublist (normalize_arabic U needle) (normalize_arabic U page_text))))
   \<and> page_contains_text py_unicode py_decode (serve (latin_page (ustr ''Hello  World'')))
        (ustr ''https://a.test'') (ustr ''world'') = Inr True"
proof
  show "page_contains_text U dec get url needle =
     (case get url of
        Inl e \<Rightarrow> Inl e
      | Inr resp \<Rightarrow>
          if 400 \<le> status_code resp \<and> status_code resp < 600 then Inl HTTPError
          else (case text_of dec (fix_encoding U resp) of
                  Inl e \<Rightarrow> Inl e
                | Inr page_text \<Rightarrow>
                    Inr (sublist (normalize_arabic U needle) (normalize_arabic U page_text))))"
    by (simp add: page_contains_text_def raise_for_status_def str_contains_sublist Let_def
        split: sum.splits)
next
  have "str_contains (ustr ''world'') (ustr ''hello world'')"
    by (simp add: ustr_def)
  then show "page_contains_text py_unicode py_decode
      (serve (latin_page (ustr ''Hello  World''))) (ustr ''https://a.test'') (ustr ''world'') = Inr True"
    by (simp add: page_contains_text_def serve_def raise_for_status_def text_latin_page
        norm_hello_world norm_world)
       (simp add: latin_page_def)
qed

text \<open>
  The normalizer strips combining marks only, after NFKC has composed what it can: the
  precomposed letter U+00F6 stays, and the page "Hello  W\<open>U+00F6\<close>rld" does not match "world".
\<close>

theorem hello_woerld_not_matched:
  "page_contains_text py_unicode py_decode
     (serve (latin_page [72, 101, 108, 108, 111, 32, 32, 87, 0xF6, 114, 108, 100]))
     (ustr ''https://a.test'') (ustr ''world'') = Inr False"
proof -
  have "\<not> str_contains (ustr ''world'') [104, 101, 108, 108, 111, 32, 119, 0xF6, 114, 108, 100]"
    by (simp add: ustr_def)
  then show ?thesis
    by (simp add: page_contains_text_def serve_def raise_for_status_def text_latin_page
        norm_hello_woerld norm_world)
       (simp add: latin_page_def)
qed

text \<open>
  C5 (amended). \<open>normalize(normalize(x)) = normalize(x)\<close> holds for every \<open>x\<close> whose
  normalized form is unchanged by NFKC and free of combining marks, for a runtime whose
  \<open>lower\<close> is idempotent, keeps whitespace-collapsed text whitespace-collapsed and leaves
  neither U+00D8 nor U+00D9 (the capitals every key of the table starts with).
\<close>

theorem normalize_fixpoint:
  assumes idem: "\<forall>s. lower U (lower U s) = lower U s"
    and shape: "\<forall>s. collapse_ws U (lower U (collapse_ws U s)) = lower U (collapse_ws U s)"
    and caps: "\<forall>s. 0xD8 \<notin> set (lower U s) \<and> 0xD9 \<notin> set (lower U s)"
    and stable: "nfkc U (normalize_arabic U x) = normalize_arabic U x"
    and marks: "\<forall>c\<in>set (normalize_arabic U x). combining U c = 0"
  shows "normalize_arabic U (normalize_arabic U x) = normalize_arabic U x"
proof -
  define z where "z = replace_variants (filter (\<lambda>ch. combining U ch = 0) (nfkc U x))"
  define y where "y = normalize_arabic U x"
  have y: "y = lower U (collapse_ws U z)"
    by (simp add: y_def z_def normalize_arabic_def)
  have 1: "filter (\<lambda>ch. combining U ch = 0) (nfkc U y) = y"
    using stable marks by (simp add: y_def)
  have 2: "replace_variants y = y"
    using caps by (simp add: y replace_variants_no_capital)
  have 3: "collapse_ws U y = y"
    using shape by (simp add: y)
  have 4: "lower U y = y"
    using idem by (simp add: y)
  have "normalize_arabic U y = y"
    by (simp add: normalize_arabic_def[of U y] 1 2 3 4)
  then show ?thesis by (simp add: y_def)
qed

theorem normalize_fixpoint_witness:
  "normalize_arabic py_unicode (normalize_arabic py_unicode (ustr ''Hello  World''))
     = normalize_arabic py_unicode (ustr ''Hello  World'')
   \<and> normalize_arabic py_unicode (ustr ''Hello  World'') = ustr ''hello world''"
proof -
  have idem: "\<forall>s. lower py_unicode (lower py_unicode s) = lower py_unicode s"
    by (simp add: py_unicode_def py_lower_idem)
  have shape: "\<forall>s. collapse_ws py_unicode (lower py_unicode (collapse_ws py_unicode s))
                  = lower py_unicode (collapse_ws py_unicode s)"
    by (simp add: py_collapse_lower)
  have caps: "\<forall>s. 0xD8 \<notin> set (lower py_unicode s) \<and> 0xD9 \<notin> set (lower py_unicode s)"
    using py_lower_no_capital by (simp add: py_unicode_def)
  have stable: "nfkc py_unicode (normalize_arabic py_unicode (ustr ''Hello  World''))
                  = normalize_arabic py_unicode (ustr ''Hello  World'')"
    by (simp add: py_unicode_def)
  have marks: "\<forall>c\<in>set (normalize_arabic py_unicode (ustr ''Hello  World'')). combining py_unicode c = 0"
    unfolding norm_hello_world by (simp add: ustr_def py_unicode_def py_combining_def)
  from normalize_fixpoint[OF idem shape caps stable marks] norm_hello_world
  show ?thesis by simp
qed

text \<open>
  The normal form of U+0130 is \<open>i\<close> followed by U+0307, put there by lower-casing after
  the marks were stripped; normalizing again strips it.
\<close>

theorem normalize_arabic_not_idempotent:
  "normalize_arabic py_unicode (normalize_arabic py_unicode [0x130])
     \<noteq> normalize_arabic py_unicode [0x130]"
proof -
  have 1: "normalize_arabic py_unicode [0x130] = [0x69, 0x307]"
    by (simp add: py_eval)
  have 2: "normalize_arabic py_unicode [0x69, 0x307] = [0x69]"
    by (simp add: py_eval)
  show ?thesis by (simp add: 1 2)
qed

section \<open>Notifications\<close>

text \<open>
  C1. A check of a URL in a watch task that is not left by an exception prints its line
  and sends the notification exactly when the new result is present and the stored state was
  not present; the new result is stored. A check that is left by an exception prints and
  sends nothing. The token and the chat id it is sent with are not empty: bot mode does not
  start on an empty token (line 189), and no turn of the loop puts a task under an empty
  chat id (line 221). In the run where chat 42 starts a watch with interval 1 and the five
  due checks that follow find the page absent, present, present, absent, present, the state
  runs unknown, absent, present, present, absent, present, and two notifications are sent: on
  entering the third and the sixth state of that sequence.
\<close>

theorem notify_iff_entering_present:
  "(args_tg_token a \<noteq> [] \<and> chat \<noteq> [] \<longrightarrow>
      check_url R N a chat url (task, w) =
        (case escapes R N a (requests w) url of
           Some e \<Rightarrow> Inl (e, [])
         | None \<Rightarrow>
             Inr ((task\<lparr>states := dict_set url (Some (present_at R N a (requests w) url))
                                    (states task)\<rparr>,
                   w\<lparr>clock := clock w + snd (http N (requests w) url),
                     requests := requests w + 1\<rparr>),
                  Print url (present_at R N a (requests w) url) #
                  (if present_at R N a (requests w) url \<and> states_get (states task) url \<noteq> Some True
                   then [Send (args_tg_token a) chat (Found (args_find a) url)] else [])))
      \<and> states_get (dict_set url (Some (present_at R N a (requests w) url)) (states task)) url
          = Some (present_at R N a (requests w) url))
   \<and> (bot_start a = Inr (b0, es0) \<and> bot_loop R N a k (b0, w0) = Inr ((b, w1), es) \<longrightarrow>
        args_tg_token a \<noteq> [] \<and> [] \<notin> set (keys (tasks b)))
   \<and> state_of (fst (process_updates py_runtime demo_args
                      (polled (demo_net [False, True, True, False, True]) 0) fresh_bot))
        (ustr ''https://a.test'') = None
   \<and> map (\<lambda>k. map_option (\<lambda>bw. state_of (fst bw) (ustr ''https://a.test''))
                (final (bot_loop py_runtime (demo_net [False, True, True, False, True])
                          demo_args k (fresh_bot, at_time 0))))
         [1, 2, 3, 4, 5]
       = [Some (Some False), Some (Some True), Some (Some True), Some (Some False),
          Some (Some True)]
   \<and> trace (bot_loop py_runtime (demo_net [False, True, True, False, True]) demo_args 5
               (fresh_bot, at_time 0))
       = [Send (ustr ''TOKEN'') (ustr ''42'') (Started [ustr ''https://a.test''] 1 (ustr ''open'')),
          Print (ustr ''https://a.test'') False,
          Print (ustr ''https://a.test'') True,
          Send (ustr ''TOKEN'') (ustr ''42'') (Found (ustr ''open'') (ustr ''https://a.test'')),
          Print (ustr ''https://a.test'') True,
          Print (ustr ''https://a.test'') False,
          Print (ustr ''https://a.test'') True,
          Send (ustr ''TOKEN'') (ustr ''42'') (Found (ustr ''open'') (ustr ''https://a.test''))]"
proof (intro conjI impI)
  assume "args_tg_token a \<noteq> [] \<and> chat \<noteq> []"
  then show "check_url R N a chat url (task, w) =
        (case escapes R N a (requests w) url of
           Some e \<Rightarrow> Inl (e, [])
         | None \<Rightarrow>
             Inr ((task\<lparr>states := dict_set url (Some (present_at R N a (requests w) url))
                                    (states task)\<rparr>,
                   w\<lparr>clock := clock w + snd (http N (requests w) url),
                     requests := requests w + 1\<rparr>),
                  Print url (present_at R N a (requests w) url) #
                  (if present_at R N a (requests w) url \<and> states_get (states task) url \<noteq> Some True
                   then [Send (args_tg_token a) chat (Found (args_find a) url)] else [])))"
    by (simp add: check_url_eq split: option.splits)
next
  show "states_get (dict_set url (Some (present_at R N a (requests w) url)) (states task)) url
          = Some (present_at R N a (requests w) url)"
    by (simp add: states_get_set)
next
  assume run: "bot_start a = Inr (b0, es0) \<and> bot_loop R N a k (b0, w0) = Inr ((b, w1), es)"
  then have start: "bot_start a = Inr (b0, es0)"
    and loop: "bot_loop R N a k (b0, w0) = Inr ((b, w1), es)"
    by simp_all
  from bot_start_token[OF start] show "args_tg_token a \<noteq> []"
    by simp
  from bot_start_token[OF start] have "[] \<notin> set (keys (tasks b0))"
    by (simp add: keys_def)
  from this loop show "[] \<notin> set (keys (tasks b))"
    by (rule bot_loop_chats)
next
  show "state_of (fst (process_updates py_runtime demo_args
                      (polled (demo_net [False, True, True, False, True]) 0) fresh_bot))
        (ustr ''https://a.test'') = None"
    by (simp add: demo_net_simps demo_first_poll state_of_def dict_get_def states_get_def
        del: process_updates.simps)
next
  let ?N = "demo_net [False, True, True, False, True]"
  show "map (\<lambda>k. map_option (\<lambda>bw. state_of (fst bw) (ustr ''https://a.test''))
                (final (bot_loop py_runtime ?N demo_args k (fresh_bot, at_time 0))))
         [1, 2, 3, 4, 5]
       = [Some (Some False), Some (Some True), Some (Some True), Some (Some False),
          Some (Some True)]"
    by (simp add: eval_nat_numeral demo_turn_1 demo_turn_next state_of_def dict_get_def
        states_get_def then_run_Inr)
  show "trace (bot_loop py_runtime ?N demo_args 5 (fresh_bot, at_time 0))
       = [Send (ustr ''TOKEN'') (ustr ''42'') (Started [ustr ''https://a.test''] 1 (ustr ''open'')),
          Print (ustr ''https://a.test'') False,
          Print (ustr ''https://a.test'') True,
          Send (ustr ''TOKEN'') (ustr ''42'') (Found (ustr ''open'') (ustr ''https://a.test'')),
          Print (ustr ''https://a.test'') True,
          Print (ustr ''https://a.test'') False,
          Print (ustr ''https://a.test'') True,
          Send (ustr ''TOKEN'') (ustr ''42'') (Found (ustr ''open'') (ustr ''https://a.test''))]"
    by (simp add: eval_nat_numeral demo_turn_1 demo_turn_next then_run_Inr)
qed

theorem notify_iff_entering_present_witness:
  "args_tg_token demo_args \<noteq> [] \<and> ustr ''42'' \<noteq> []
   \<and> check_url py_runtime (demo_net [True]) demo_args (ustr ''42'') (ustr ''https://a.test'')
         (\<lparr>urls = [ustr ''https://a.test''], interval = 1,
           states = [(ustr ''https://a.test'', Some False)], next_at = 0\<rparr>, at_time 0)
       = Inr ((\<lparr>urls = [ustr ''https://a.test''], interval = 1,
                states = [(ustr ''https://a.test'', Some True)], next_at = 0\<rparr>,
               \<lparr>clock = 1, requests = 1, iterations = 0\<rparr>),
              [Print (ustr ''https://a.test'') True,
               Send (ustr ''TOKEN'') (ustr ''42'') (Found (ustr ''open'') (ustr ''https://a.test''))])"
  using notify_iff_entering_present[where a = demo_args and chat = "ustr ''42''"
      and R = py_runtime and N = "demo_net [True]" and url = "ustr ''https://a.test''"
      and task = "\<lparr>urls = [ustr ''https://a.test''], interval = 1,
               states = [(ustr ''https://a.test'', Some False)], next_at = 0\<rparr>"
      and w = "at_time 0"]
  by (simp add: demo_args_simps ustr_nonempty demo_present demo_escapes demo_net_simps at_time_def
      states_get_def dict_get_def)

text \<open>
  C2. When the fetch of a URL of a sweep raises an exception of the classes that line 325
  names, its check prints the URL as absent, sends nothing and stores absent, and the sweep
  goes on with the URLs after it from that state. A sweep none of whose checks is left by
  an exception of another class returns after one line for each URL of the list, in order,
  and one request for each, and the loop then runs turn after turn. Where the second of three requests times out and the others find
  the text, the second URL is stored absent and the third is checked and notified. An
  exception of another class is not caught by line 325 and ends the sweep where it is raised:
  that is what happens for the host \<open>a..b\<close> and for the charset \<open>undefined\<close>.
\<close>

theorem sweep_survives_fetch_error:
  "(sweep R N a chat pre tw = Inr ((t1, w1), es1)
      \<and> page_contains_text (uni R) (codec R) (\<lambda>u. fst (http N (requests w1) u)) url (args_find a)
          = Inl e
      \<and> is_RequestException e \<longrightarrow>
      sweep R N a chat (pre @ url # post) tw =
        (case sweep R N a chat post
                (t1\<lparr>states := dict_set url (Some False) (states t1)\<rparr>,
                 w1\<lparr>clock := clock w1 + snd (http N (requests w1) url),
                    requests := requests w1 + 1\<rparr>) of
           Inl x \<Rightarrow> Inl (fst x, es1 @ Print url False # snd x)
         | Inr x \<Rightarrow> Inr (fst x, es1 @ Print url False # snd x))
      \<and> states_get (dict_set url (Some False) (states t1)) url = Some False)
   \<and> ((\<forall>i<length us. escapes R N a (requests w + i) (us ! i) = None) \<longrightarrow>
        (\<exists>t' w' es. sweep R N a chat us (t, w) = Inr ((t', w'), es) \<and> printed es = us
           \<and> requests w' = requests w + length us))
   \<and> ((\<forall>n u. escapes R N a n u = None) \<longrightarrow>
        (\<exists>b' v' fs. bot_loop R N a k (b, v) = Inr ((b', v'), fs)))
   \<and> (escapes R N a n u = None) =
       (\<forall>x. page_contains_text (uni R) (codec R) (\<lambda>v. fst (http N n v)) u (args_find a) = Inl x
            \<longrightarrow> x = HTTPError \<or> x = Timeout \<or> x = RequestException)
   \<and> sweep py_runtime flaky_net demo_args (ustr ''42'')
         [ustr ''https://a.test'', ustr ''https://b.test'', ustr ''https://c.test'']
         (\<lparr>urls = [ustr ''https://a.test'', ustr ''https://b.test'', ustr ''https://c.test''],
           interval = 5,
           states = init_states [ustr ''https://a.test'', ustr ''https://b.test'', ustr ''https://c.test''],
           next_at = 0\<rparr>,
          at_time 0)
       = Inr ((\<lparr>urls = [ustr ''https://a.test'', ustr ''https://b.test'', ustr ''https://c.test''],
                interval = 5,
                states = [(ustr ''https://a.test'', Some True), (ustr ''https://b.test'', Some False),
                          (ustr ''https://c.test'', Some True)],
                next_at = 0\<rparr>,
               \<lparr>clock = 3, requests = 3, iterations = 0\<rparr>),
              [Print (ustr ''https://a.test'') True,
               Send (ustr ''TOKEN'') (ustr ''42'') (Found (ustr ''open'') (ustr ''https://a.test'')),
               Print (ustr ''https://b.test'') False,
               Print (ustr ''https://c.test'') True,
               Send (ustr ''TOKEN'') (ustr ''42'') (Found (ustr ''open'') (ustr ''https://c.test''))])
   \<and> sweep py_runtime trap_net demo_args (ustr ''42'')
         [ustr ''https://a.test'', ustr ''https://a..b'', ustr ''https://c.test'']
         (\<lparr>urls = [ustr ''https://a.test'', ustr ''https://a..b'', ustr ''https://c.test''],
           interval = 5,
           states = init_states [ustr ''https://a.test'', ustr ''https://a..b'', ustr ''https://c.test''],
           next_at = 0\<rparr>,
          at_time 0)
       = Inl (LocationParseError,
              [Print (ustr ''https://a.test'') True,
               Send (ustr ''TOKEN'') (ustr ''42'') (Found (ustr ''open'') (ustr ''https://a.test''))])
   \<and> sweep py_runtime trap_net demo_args (ustr ''42'') [ustr ''https://u.test'', ustr ''https://c.test'']
         (\<lparr>urls = [ustr ''https://u.test'', ustr ''https://c.test''], interval = 5,
           states = init_states [ustr ''https://u.test'', ustr ''https://c.test''], next_at = 0\<rparr>,
          at_time 0)
       = Inl (UnicodeError, [])"
proof (intro conjI impI)
  assume h: "sweep R N a chat pre tw = Inr ((t1, w1), es1)
      \<and> page_contains_text (uni R) (codec R) (\<lambda>u. fst (http N (requests w1) u)) url (args_find a)
          = Inl e
      \<and> is_RequestException e"
  then have pre: "sweep R N a chat pre tw = Inr ((t1, w1), es1)"
    and absent: "\<not> present_at R N a (requests w1) url"
    and caught: "escapes R N a (requests w1) url = None"
    by (simp_all add: present_at_def escapes_def)
  have "sweep R N a chat (pre @ url # post) tw
          = then_run (Inr ((t1, w1), es1)) (sweep R N a chat (url # post))"
    by (simp add: sweep_append pre)
  also have "\<dots> = (case sweep R N a chat post
                (t1\<lparr>states := dict_set url (Some False) (states t1)\<rparr>,
                 w1\<lparr>clock := clock w1 + snd (http N (requests w1) url),
                    requests := requests w1 + 1\<rparr>) of
           Inl x \<Rightarrow> Inl (fst x, es1 @ Print url False # snd x)
         | Inr x \<Rightarrow> Inr (fst x, es1 @ Print url False # snd x))"
    using absent caught
    by (simp add: then_run_Inr check_url_eq split: sum.splits)
  finally show "sweep R N a chat (pre @ url # post) tw =
        (case sweep R N a chat post
                (t1\<lparr>states := dict_set url (Some False) (states t1)\<rparr>,
                 w1\<lparr>clock := clock w1 + snd (http N (requests w1) url),
                    requests := requests w1 + 1\<rparr>) of
           Inl x \<Rightarrow> Inl (fst x, es1 @ Print url False # snd x)
         | Inr x \<Rightarrow> Inr (fst x, es1 @ Print url False # snd x))" .
next
  show "states_get (dict_set url (Some False) (states t1)) url = Some False"
    by (simp add: states_get_set)
next
  assume "\<forall>i<length us. escapes R N a (requests w + i) (us ! i) = None"
  from sweep_returns[OF this, of chat t] obtain t' w' es where
    r: "sweep R N a chat us (t, w) = Inr ((t', w'), es)"
    by blast
  from sweep_returned[OF r] r
  show "\<exists>t' w' es. sweep R N a chat us (t, w) = Inr ((t', w'), es) \<and> printed es = us
           \<and> requests w' = requests w + length us"
    by blast
next
  assume "\<forall>n u. escapes R N a n u = None"
  then show "\<exists>b' v' fs. bot_loop R N a k (b, v) = Inr ((b', v'), fs)"
    by (rule bot_loop_returns)
next
  show "(escapes R N a n u = None) =
       (\<forall>x. page_contains_text (uni R) (codec R) (\<lambda>v. fst (http N n v)) u (args_find a) = Inl x
            \<longrightarrow> x = HTTPError \<or> x = Timeout \<or> x = RequestException)"
    by (cases "page_contains_text (uni R) (codec R) (\<lambda>v. fst (http N n v)) u (args_find a)")
       (simp_all add: escapes_def is_RequestException_def)
next
  have ne: "ustr ''https://a.test'' \<noteq> ustr ''https://b.test''"
      "ustr ''https://a.test'' \<noteq> ustr ''https://c.test''"
      "ustr ''https://b.test'' \<noteq> ustr ''https://c.test''"
    by (simp_all add: ustr_def)
  show "sweep py_runtime flaky_net demo_args (ustr ''42'')
         [ustr ''https://a.test'', ustr ''https://b.test'', ustr ''https://c.test'']
         (\<lparr>urls = [ustr ''https://a.test'', ustr ''https://b.test'', ustr ''https://c.test''],
           interval = 5,
           states = init_states [ustr ''https://a.test'', ustr ''https://b.test'', ustr ''https://c.test''],
           next_at = 0\<rparr>,
          at_time 0)
       = Inr ((\<lparr>urls = [ustr ''https://a.test'', ustr ''https://b.test'', ustr ''https://c.test''],
                interval = 5,
                states = [(ustr ''https://a.test'', Some True), (ustr ''https://b.test'', Some False),
                          (ustr ''https://c.test'', Some True)],
                next_at = 0\<rparr>,
               \<lparr>clock = 3, requests = 3, iterations = 0\<rparr>),
              [Print (ustr ''https://a.test'') True,
               Send (ustr ''TOKEN'') (ustr ''42'') (Found (ustr ''open'') (ustr ''https://a.test'')),
               Print (ustr ''https://b.test'') False,
               Print (ustr ''https://c.test'') True,
               Send (ustr ''TOKEN'') (ustr ''42'') (Found (ustr ''open'') (ustr ''https://c.test''))])"
    using ne
    by (simp add: check_url_eq flaky_present flaky_escapes flaky_net_simps demo_args_simps
        ustr_nonempty at_time_def init_states_def states_get_def dict_get_def then_run_Inr)
next
  have ne: "ustr ''https://a.test'' \<noteq> ustr ''https://a..b''"
      "ustr ''https://a.test'' \<noteq> ustr ''https://u.test''"
    by (simp_all add: ustr_def)
  show "sweep py_runtime trap_net demo_args (ustr ''42'')
         [ustr ''https://a.test'', ustr ''https://a..b'', ustr ''https://c.test'']
         (\<lparr>urls = [ustr ''https://a.test'', ustr ''https://a..b'', ustr ''https://c.test''],
           interval = 5,
           states = init_states [ustr ''https://a.test'', ustr ''https://a..b'', ustr ''https://c.test''],
           next_at = 0\<rparr>,
          at_time 0)
       = Inl (LocationParseError,
              [Print (ustr ''https://a.test'') True,
               Send (ustr ''TOKEN'') (ustr ''42'') (Found (ustr ''open'') (ustr ''https://a.test''))])"
    using ne
    by (simp add: check_url_eq trap_present trap_escapes trap_net_simps demo_args_simps
        ustr_nonempty at_time_def init_states_def states_get_def dict_get_def then_run_Inr)
next
  have ne: "ustr ''https://u.test'' \<noteq> ustr ''https://a..b''"
    by (simp add: ustr_def)
  show "sweep py_runtime trap_net demo_args (ustr ''42'') [ustr ''https://u.test'', ustr ''https://c.test'']
         (\<lparr>urls = [ustr ''https://u.test'', ustr ''https://c.test''], interval = 5,
           states = init_states [ustr ''https://u.test'', ustr ''https://c.test''], next_at = 0\<rparr>,
          at_time 0)
       = Inl (UnicodeError, [])"
    using ne
    by (simp add: check_url_eq trap_escapes at_time_def)
qed

theorem sweep_survives_fetch_error_witness:
  "sweep py_runtime flaky_net demo_args (ustr ''42'') [ustr ''https://a.test'']
       (\<lparr>urls = [ustr ''https://a.test'', ustr ''https://b.test'', ustr ''https://c.test''],
         interval = 5, states = [], next_at = 0\<rparr>, at_time 0)
     = Inr ((\<lparr>urls = [ustr ''https://a.test'', ustr ''https://b.test'', ustr ''https://c.test''],
              interval = 5, states = [(ustr ''https://a.test'', Some True)], next_at = 0\<rparr>,
             \<lparr>clock = 1, requests = 1, iterations = 0\<rparr>),
            [Print (ustr ''https://a.test'') True,
             Send (ustr ''TOKEN'') (ustr ''42'') (Found (ustr ''open'') (ustr ''https://a.test''))])
   \<and> page_contains_text (uni py_runtime) (codec py_runtime) (\<lambda>u. fst (http flaky_net 1 u))
         (ustr ''https://b.test'') (args_find demo_args) = Inl Timeout
   \<and> is_RequestException Timeout
   \<and> trace (sweep py_runtime flaky_net demo_args (ustr ''42'')
         ([ustr ''https://a.test''] @ ustr ''https://b.test'' # [ustr ''https://c.test''])
         (\<lparr>urls = [ustr ''https://a.test'', ustr ''https://b.test'', ustr ''https://c.test''],
           interval = 5, states = [], next_at = 0\<rparr>, at_time 0))
       = [Print (ustr ''https://a.test'') True,
          Send (ustr ''TOKEN'') (ustr ''42'') (Found (ustr ''open'') (ustr ''https://a.test'')),
          Print (ustr ''https://b.test'') False,
          Print (ustr ''https://c.test'') True,
          Send (ustr ''TOKEN'') (ustr ''42'') (Found (ustr ''open'') (ustr ''https://c.test''))]"
proof -
  let ?t0 = "\<lparr>urls = [ustr ''https://a.test'', ustr ''https://b.test'', ustr ''https://c.test''],
         interval = 5 :: real, states = [], next_at = 0 :: real\<rparr>"
  let ?t1 = "\<lparr>urls = [ustr ''https://a.test'', ustr ''https://b.test'', ustr ''https://c.test''],
              interval = 5 :: real, states = [(ustr ''https://a.test'', Some True)],
              next_at = 0 :: real\<rparr>"
  let ?w1 = "\<lparr>clock = 1 :: real, requests = 1, iterations = 0\<rparr>"
  let ?es1 = "[Print (ustr ''https://a.test'') True,
             Send (ustr ''TOKEN'') (ustr ''42'') (Found (ustr ''open'') (ustr ''https://a.test''))]
             :: real effect list"
  have ne: "ustr ''https://a.test'' \<noteq> ustr ''https://b.test''"
      "ustr ''https://a.test'' \<noteq> ustr ''https://c.test''"
      "ustr ''https://b.test'' \<noteq> ustr ''https://c.test''"
    by (simp_all add: ustr_def)
  have pre: "sweep py_runtime flaky_net demo_args (ustr ''42'') [ustr ''https://a.test'']
       (?t0, at_time 0) = Inr ((?t1, ?w1), ?es1)"
    by (simp add: check_url_eq flaky_present flaky_escapes flaky_net_simps demo_args_simps
        ustr_nonempty at_time_def states_get_def dict_get_def then_run_Inr)
  have fail: "page_contains_text (uni py_runtime) (codec py_runtime) (\<lambda>u. fst (http flaky_net
        (requests ?w1) u)) (ustr ''https://b.test'') (args_find demo_args) = Inl Timeout"
    by (simp add: py_runtime_simps demo_args_simps flaky_check)
  have caught: "is_RequestException Timeout"
    by (simp add: is_RequestException_def)
  have post: "sweep py_runtime flaky_net demo_args (ustr ''42'') [ustr ''https://c.test'']
        (?t1\<lparr>states := dict_set (ustr ''https://b.test'') (Some False) (states ?t1)\<rparr>,
         ?w1\<lparr>clock := clock ?w1 + snd (http flaky_net (requests ?w1) (ustr ''https://b.test'')),
            requests := requests ?w1 + 1\<rparr>)
      = Inr ((\<lparr>urls = [ustr ''https://a.test'', ustr ''https://b.test'', ustr ''https://c.test''],
                interval = 5,
                states = [(ustr ''https://a.test'', Some True), (ustr ''https://b.test'', Some False),
                          (ustr ''https://c.test'', Some True)],
                next_at = 0\<rparr>,
               \<lparr>clock = 3, requests = 3, iterations = 0\<rparr>),
              [Print (ustr ''https://c.test'') True,
               Send (ustr ''TOKEN'') (ustr ''42'') (Found (ustr ''open'') (ustr ''https://c.test''))])"
    using ne
    by (simp add: check_url_eq flaky_present flaky_escapes flaky_net_simps demo_args_simps
        ustr_nonempty states_get_def dict_get_def then_run_Inr)
  from sweep_survives_fetch_error[where R = py_runtime and N = flaky_net and a = demo_args
      and chat = "ustr ''42''" and pre = "[ustr ''https://a.test'']"
      and url = "ustr ''https://b.test''" and post = "[ustr ''https://c.test'']" and e = Timeout
      and tw = "(?t0, at_time 0)" and ?t1.0 = ?t1 and ?w1.0 = ?w1 and ?es1.0 = ?es1]
    pre fail caught
  have "sweep py_runtime flaky_net demo_args (ustr ''42'')
         ([ustr ''https://a.test''] @ ustr ''https://b.test'' # [ustr ''https://c.test''])
         (?t0, at_time 0)
      = (case sweep py_runtime flaky_net demo_args (ustr ''42'') [ustr ''https://c.test'']
                (?t1\<lparr>states := dict_set (ustr ''https://b.test'') (Some False) (states ?t1)\<rparr>,
                 ?w1\<lparr>clock := clock ?w1 + snd (http flaky_net (requests ?w1) (ustr ''https://b.test'')),
                    requests := requests ?w1 + 1\<rparr>) of
           Inl x \<Rightarrow> Inl (fst x, ?es1 @ Print (ustr ''https://b.test'') False # snd x)
         | Inr x \<Rightarrow> Inr (fst x, ?es1 @ Print (ustr ''https://b.test'') False # snd x))"
    by blast
  then have tr: "trace (sweep py_runtime flaky_net demo_args (ustr ''42'')
         ([ustr ''https://a.test''] @ ustr ''https://b.test'' # [ustr ''https://c.test''])
         (?t0, at_time 0))
       = [Print (ustr ''https://a.test'') True,
          Send (ustr ''TOKEN'') (ustr ''42'') (Found (ustr ''open'') (ustr ''https://a.test'')),
          Print (ustr ''https://b.test'') False,
          Print (ustr ''https://c.test'') True,
          Send (ustr ''TOKEN'') (ustr ''42'') (Found (ustr ''open'') (ustr ''https://c.test''))]"
    by (simp only: post) simp
  from pre fail caught tr show ?thesis
    by (simp only: simp_thms) simp
qed

section \<open>Scheduling\<close>

text \<open>
  C3. In a tick at time \<open>now\<close> that returns, a task that was due has \<open>now + interval\<close>
  as its next due time, whatever the requests of its sweep answer and however long they
  take; a task that was not due is left as it is; the table keeps its chats. A tick returns
  when no check is left by an exception. The \<open>now\<close> of a turn of the loop is the clock
  read before the sweeps. With interval 5, a due check at time 100 whose request takes 3
  seconds ends at time 103 and sets the next due time to 105.
\<close>

theorem next_due_anchored_to_tick:
  "(run_due R N a now ts w = Inr ((ts', w'), es) \<and> i < length ts
      \<and> now \<ge> next_at (snd (ts ! i)) \<longrightarrow>
      next_at (snd (ts' ! i)) = now + interval (snd (ts ! i)))
   \<and> (run_due R N a now ts w = Inr ((ts', w'), es) \<and> i < length ts
      \<and> \<not> now \<ge> next_at (snd (ts ! i)) \<longrightarrow>
      ts' ! i = ts ! i)
   \<and> (run_due R N a now ts w = Inr ((ts', w'), es) \<longrightarrow> keys ts' = keys ts)
   \<and> ((\<forall>n u. escapes R N a n u = None) \<longrightarrow>
        (\<exists>ts' w' es. run_due R N a now ts w = Inr ((ts', w'), es)))
   \<and> (bot_iteration R N a (b, w) = Inr ((b', v'), fs) \<longrightarrow>
        (\<exists>w1 es2.
           run_due R N a (clock w) (tasks (fst (process_updates R a (polled N (iterations w)) b))) w
             = Inr ((tasks b', w1), es2)))
   \<and> run_due py_runtime slow_net demo_args 100
        [(ustr ''42'', \<lparr>urls = [ustr ''https://a.test''], interval = 5,
                        states = init_states [ustr ''https://a.test''], next_at = 0\<rparr>)]
        (at_time 100)
      = Inr (([(ustr ''42'', \<lparr>urls = [ustr ''https://a.test''], interval = 5,
                           states = [(ustr ''https://a.test'', Some False)], next_at = 105\<rparr>)],
              \<lparr>clock = 103, requests = 1, iterations = 0\<rparr>),
             [Print (ustr ''https://a.test'') False])"
proof (intro conjI impI)
  assume "run_due R N a now ts w = Inr ((ts', w'), es) \<and> i < length ts
      \<and> now \<ge> next_at (snd (ts ! i))"
  then show "next_at (snd (ts' ! i)) = now + interval (snd (ts ! i))"
    using run_due_returned[of R N a now ts w ts' w' es] by simp
next
  assume "run_due R N a now ts w = Inr ((ts', w'), es) \<and> i < length ts
      \<and> \<not> now \<ge> next_at (snd (ts ! i))"
  then show "ts' ! i = ts ! i"
    using run_due_returned[of R N a now ts w ts' w' es] by simp
next
  assume "run_due R N a now ts w = Inr ((ts', w'), es)"
  then show "keys ts' = keys ts"
    using run_due_returned[of R N a now ts w ts' w' es] by simp
next
  assume "\<forall>n u. escapes R N a n u = None"
  then show "\<exists>ts' w' es. run_due R N a now ts w = Inr ((ts', w'), es)"
    by (rule run_due_returns)
next
  assume "bot_iteration R N a (b, w) = Inr ((b', v'), fs)"
  then show "\<exists>w1 es2.
           run_due R N a (clock w) (tasks (fst (process_updates R a (polled N (iterations w)) b))) w
             = Inr ((tasks b', w1), es2)"
    unfolding bot_iteration_returned by auto
next
  show "run_due py_runtime slow_net demo_args 100
        [(ustr ''42'', \<lparr>urls = [ustr ''https://a.test''], interval = 5,
                        states = init_states [ustr ''https://a.test''], next_at = 0\<rparr>)]
        (at_time 100)
      = Inr (([(ustr ''42'', \<lparr>urls = [ustr ''https://a.test''], interval = 5,
                           states = [(ustr ''https://a.test'', Some False)], next_at = 105\<rparr>)],
              \<lparr>clock = 103, requests = 1, iterations = 0\<rparr>),
             [Print (ustr ''https://a.test'') False])"
    by (simp add: Let_def check_url_eq slow_present slow_escapes slow_net_simps at_time_def
        init_states_def then_run_Inr)
qed

theorem next_due_anchored_to_tick_witness:
  "run_due py_runtime slow_net demo_args 100
        [(ustr ''42'', \<lparr>urls = [ustr ''https://a.test''], interval = 5,
                        states = init_states [ustr ''https://a.test''], next_at = 0\<rparr>)]
        (at_time 100)
      = Inr (([(ustr ''42'', \<lparr>urls = [ustr ''https://a.test''], interval = 5,
                           states = [(ustr ''https://a.test'', Some False)], next_at = 105\<rparr>)],
              \<lparr>clock = 103, requests = 1, iterations = 0\<rparr>),
             [Print (ustr ''https://a.test'') False])
   \<and> (0::nat) < length [(ustr ''42'', \<lparr>urls = [ustr ''https://a.test''], interval = 5 :: real,
                        states = init_states [ustr ''https://a.test''], next_at = 0 :: real\<rparr>)]
   \<and> (100::real) \<ge> 0
   \<and> next_at (snd ([(ustr ''42'', \<lparr>urls = [ustr ''https://a.test''], interval = 5 :: real,
                           states = [(ustr ''https://a.test'', Some False)],
                           next_at = 105 :: real\<rparr>)] ! 0))
       = 100 + interval (snd ([(ustr ''42'', \<lparr>urls = [ustr ''https://a.test''], interval = 5 :: real,
                        states = init_states [ustr ''https://a.test''], next_at = 0 :: real\<rparr>)] ! 0))"
  using next_due_anchored_to_tick[where i = 0 and now = 100 and R = py_runtime and N = slow_net
      and a = demo_args and w = "at_time 100"
      and ts = "[(ustr ''42'', \<lparr>urls = [ustr ''https://a.test''], interval = 5,
                        states = init_states [ustr ''https://a.test''], next_at = 0\<rparr>)]"
      and ts' = "[(ustr ''42'', \<lparr>urls = [ustr ''https://a.test''], interval = 5,
                           states = [(ustr ''https://a.test'', Some False)], next_at = 105\<rparr>)]"
      and w' = "\<lparr>clock = 103, requests = 1, iterations = 0\<rparr>"
      and es = "[Print (ustr ''https://a.test'') False]"]
  by simp

text \<open>
  C10. The states of a new task hold one entry for each distinct URL of the list, and a sweep
  that returns has kept it so. In a sweep in which every check of a URL finds the text (the
  request made at each place where the list names it), at most one notification is sent for
  that URL, however often the list names it and whether or not the sweep returns: after the
  first check the stored state is present. For the list that names \<open>https://a.test\<close>
  twice, the task has one state, and the sweep that finds the text both times notifies once.
\<close>

theorem duplicate_url_one_state_one_notification:
  "set (keys (init_states us)) = set us \<and> distinct (keys (init_states us))
   \<and> (sweep R N a chat us (task, w) = Inr ((task', w'), es) \<longrightarrow>
        set (keys (states task')) = set (keys (states task)) \<union> set us
        \<and> (distinct (keys (states task)) \<longrightarrow> distinct (keys (states task'))))
   \<and> ((\<forall>i<length us. us ! i = u \<longrightarrow> present_at R N a (requests w + i) u) \<longrightarrow>
        length (filter (is_found u) (trace (sweep R N a chat us (task, w)))) \<le> 1)
   \<and> fst (run_command py_runtime demo_args (ustr ''42'') (ustr ''/watch'')
             [ustr ''https://a.test'', ustr ''https://a.test''] [])
       = [(ustr ''42'', \<lparr>urls = [ustr ''https://a.test'', ustr ''https://a.test''], interval = 5,
                          states = [(ustr ''https://a.test'', None)], next_at = 0\<rparr>)]
   \<and> sweep py_runtime open_net demo_args (ustr ''42'') [ustr ''https://a.test'', ustr ''https://a.test'']
         (\<lparr>urls = [ustr ''https://a.test'', ustr ''https://a.test''], interval = 5,
           states = [(ustr ''https://a.test'', None)], next_at = 0\<rparr>, at_time 0)
       = Inr ((\<lparr>urls = [ustr ''https://a.test'', ustr ''https://a.test''], interval = 5,
                states = [(ustr ''https://a.test'', Some True)], next_at = 0\<rparr>,
               \<lparr>clock = 2, requests = 2, iterations = 0\<rparr>),
              [Print (ustr ''https://a.test'') True,
               Send (ustr ''TOKEN'') (ustr ''42'') (Found (ustr ''open'') (ustr ''https://a.test'')),
               Print (ustr ''https://a.test'') True])"
proof (intro conjI impI)
  show "set (keys (init_states us)) = set us" "distinct (keys (init_states us))"
    by (simp_all add: keys_init_states)
next
  assume "sweep R N a chat us (task, w) = Inr ((task', w'), es)"
  from sweep_returned[OF this]
  show "set (keys (states task')) = set (keys (states task)) \<union> set us"
    by simp
next
  assume "sweep R N a chat us (task, w) = Inr ((task', w'), es)"
    and "distinct (keys (states task))"
  with sweep_returned[of R N a chat us task w task' w' es]
  show "distinct (keys (states task'))"
    by simp
next
  assume "\<forall>i<length us. us ! i = u \<longrightarrow> present_at R N a (requests w + i) u"
  then show "length (filter (is_found u) (trace (sweep R N a chat us (task, w)))) \<le> 1"
    by (rule sweep_found_once)
next
  have "watch_args py_float [ustr ''https://a.test'', ustr ''https://a.test''] ([], 5)
          = ([ustr ''https://a.test'', ustr ''https://a.test''], 5)"
    by (simp add: is_url_def ustr_def)
  then show "fst (run_command py_runtime demo_args (ustr ''42'') (ustr ''/watch'')
             [ustr ''https://a.test'', ustr ''https://a.test''] [])
       = [(ustr ''42'', \<lparr>urls = [ustr ''https://a.test'', ustr ''https://a.test''], interval = 5,
                          states = [(ustr ''https://a.test'', None)], next_at = 0\<rparr>)]"
    by (simp add: run_command_def py_runtime_simps demo_args_simps init_states_def)
next
  show "sweep py_runtime open_net demo_args (ustr ''42'') [ustr ''https://a.test'', ustr ''https://a.test'']
         (\<lparr>urls = [ustr ''https://a.test'', ustr ''https://a.test''], interval = 5,
           states = [(ustr ''https://a.test'', None)], next_at = 0\<rparr>, at_time 0)
       = Inr ((\<lparr>urls = [ustr ''https://a.test'', ustr ''https://a.test''], interval = 5,
                states = [(ustr ''https://a.test'', Some True)], next_at = 0\<rparr>,
               \<lparr>clock = 2, requests = 2, iterations = 0\<rparr>),
              [Print (ustr ''https://a.test'') True,
               Send (ustr ''TOKEN'') (ustr ''42'') (Found (ustr ''open'') (ustr ''https://a.test'')),
               Print (ustr ''https://a.test'') True])"
    by (simp add: check_url_eq open_present open_escapes open_net_simps demo_args_simps
        ustr_nonempty at_time_def states_get_def dict_get_def then_run_Inr)
qed

theorem duplicate_url_one_state_one_notification_witness:
  "present_at py_runtime open_net demo_args 0 (ustr ''https://a.test'')
   \<and> present_at py_runtime open_net demo_args 1 (ustr ''https://a.test'')
   \<and> length (filter (is_found (ustr ''https://a.test''))
        (trace (sweep py_runtime open_net demo_args (ustr ''42'')
               [ustr ''https://a.test'', ustr ''https://a.test'']
               (\<lparr>urls = [ustr ''https://a.test'', ustr ''https://a.test''], interval = 5,
                 states = [(ustr ''https://a.test'', None)], next_at = 0\<rparr>, at_time 0)))) \<le> 1"
proof -
  have "\<forall>i<length [ustr ''https://a.test'', ustr ''https://a.test''].
          [ustr ''https://a.test'', ustr ''https://a.test''] ! i = ustr ''https://a.test'' \<longrightarrow>
          present_at py_runtime open_net demo_args (requests (at_time 0) + i) (ustr ''https://a.test'')"
    by (simp add: open_present)
  with duplicate_url_one_state_one_notification[where R = py_runtime and N = open_net
      and a = demo_args and u = "ustr ''https://a.test''" and chat = "ustr ''42''"
      and us = "[ustr ''https://a.test'', ustr ''https://a.test'']"
      and task = "\<lparr>urls = [ustr ''https://a.test'', ustr ''https://a.test''], interval = 5,
                 states = [(ustr ''https://a.test'', None)], next_at = 0\<rparr>"
      and w = "at_time 0"]
  have le: "length (filter (is_found (ustr ''https://a.test''))
        (trace (sweep py_runtime open_net demo_args (ustr ''42'')
               [ustr ''https://a.test'', ustr ''https://a.test'']
               (\<lparr>urls = [ustr ''https://a.test'', ustr ''https://a.test''], interval = 5,
                 states = [(ustr ''https://a.test'', None)], next_at = 0\<rparr>, at_time 0)))) \<le> 1"
    by blast
  show ?thesis
  proof (intro conjI)
    show "present_at py_runtime open_net demo_args 0 (ustr ''https://a.test'')"
      by (rule open_present)
    show "present_at py_runtime open_net demo_args 1 (ustr ''https://a.test'')"
      by (rule open_present)
    show "length (filter (is_found (ustr ''https://a.test''))
        (trace (sweep py_runtime open_net demo_args (ustr ''42'')
               [ustr ''https://a.test'', ustr ''https://a.test'']
               (\<lparr>urls = [ustr ''https://a.test'', ustr ''https://a.test''], interval = 5,
                 states = [(ustr ''https://a.test'', None)], next_at = 0\<rparr>, at_time 0)))) \<le> 1"
      by (rule le)
  qed
qed

section \<open>Commands\<close>

text \<open>
  C6. For a command whose first token, lower-cased, is \<open>/watch\<close> or \<open>watch\<close> and that
  has at least one argument: the arguments that start with \<open>http://\<close> or \<open>https://\<close> are
  the URLs, in order and with their repetitions; the interval is the last of the other
  arguments that parse as a number of at least one, the default if there is none; the
  remaining arguments are ignored. With no URL the table is left as it is and the sender is
  told to give one; otherwise the task is stored. So \<open>watch https://a.test https://b.test 10\<close>
  starts a watch of the two URLs every 10 seconds, and \<open>watch\<close> alone does nothing.
\<close>

theorem start_watch_parsing:
  "(split_ws (uni R) (strip (uni R) cmd_text) = verb # cmd_args
      \<and> lower (uni R) verb \<in> {ustr ''/watch'', ustr ''watch''} \<and> cmd_args \<noteq> [] \<longrightarrow>
      parse_command (uni R) cmd_text = (lower (uni R) verb, cmd_args)
      \<and> run_command R a chat (lower (uni R) verb) cmd_args ts =
         (if filter is_url cmd_args = [] then (ts, [Send (args_tg_token a) chat NeedUrl])
          else (dict_set chat
                  \<lparr>urls = filter is_url cmd_args,
                   interval = last (args_interval a # interval_tokens (float_of R) cmd_args),
                   states = init_states (filter is_url cmd_args), next_at = 0\<rparr> ts,
                [Send (args_tg_token a) chat
                   (Started (filter is_url cmd_args)
                      (last (args_interval a # interval_tokens (float_of R) cmd_args))
                      (args_find a))])))
   \<and> process_update py_runtime demo_args (said 1 ''watch https://a.test https://b.test 10'') fresh_bot
       = (\<lparr>tasks = [(ustr ''42'',
                      \<lparr>urls = [ustr ''https://a.test'', ustr ''https://b.test''], interval = 10,
                       states = [(ustr ''https://a.test'', None), (ustr ''https://b.test'', None)],
                       next_at = 0\<rparr>)],
            next_offset = Some 2\<rparr>,
          [Send (ustr ''TOKEN'') (ustr ''42'')
             (Started [ustr ''https://a.test'', ustr ''https://b.test''] 10 (ustr ''open''))])
   \<and> process_update py_runtime demo_args (said 1 ''watch'') fresh_bot
       = (\<lparr>tasks = [], next_offset = Some 2\<rparr>, [])
   \<and> process_update py_runtime demo_args (said 1 ''WATCH 3 https://a.test x 7 0 https://a.test'') fresh_bot
       = (\<lparr>tasks = [(ustr ''42'',
                      \<lparr>urls = [ustr ''https://a.test'', ustr ''https://a.test''], interval = 7,
                       states = [(ustr ''https://a.test'', None)], next_at = 0\<rparr>)],
            next_offset = Some 2\<rparr>,
          [Send (ustr ''TOKEN'') (ustr ''42'')
             (Started [ustr ''https://a.test'', ustr ''https://a.test''] 7 (ustr ''open''))])
   \<and> process_update py_runtime demo_args (said 1 ''watch soon 10'') fresh_bot
       = (\<lparr>tasks = [], next_offset = Some 2\<rparr>, [Send (ustr ''TOKEN'') (ustr ''42'') NeedUrl])"
proof (intro conjI impI)
  assume h: "split_ws (uni R) (strip (uni R) cmd_text) = verb # cmd_args
      \<and> lower (uni R) verb \<in> {ustr ''/watch'', ustr ''watch''} \<and> cmd_args \<noteq> []"
  then show "parse_command (uni R) cmd_text = (lower (uni R) verb, cmd_args)"
    by (simp add: parse_command_def)
  from h show "run_command R a chat (lower (uni R) verb) cmd_args ts =
         (if filter is_url cmd_args = [] then (ts, [Send (args_tg_token a) chat NeedUrl])
          else (dict_set chat
                  \<lparr>urls = filter is_url cmd_args,
                   interval = last (args_interval a # interval_tokens (float_of R) cmd_args),
                   states = init_states (filter is_url cmd_args), next_at = 0\<rparr> ts,
                [Send (args_tg_token a) chat
                   (Started (filter is_url cmd_args)
                      (last (args_interval a # interval_tokens (float_of R) cmd_args))
                      (args_find a))]))"
    by (intro run_command_watch) simp_all
next
  have p: "parse_command py_unicode (ustr ''watch https://a.test https://b.test 10'')
             = (ustr ''watch'', [ustr ''https://a.test'', ustr ''https://b.test'', ustr ''10''])"
    by (simp add: parse_command_def strip_def split_ws_def py_unicode_def py_isspace_def
        py_lower_cp_def ustr_def)
  have w: "watch_args py_float [ustr ''https://a.test'', ustr ''https://b.test'', ustr ''10''] ([], 5)
             = ([ustr ''https://a.test'', ustr ''https://b.test''], 10)"
    by (simp add: is_url_def py_float_def ustr_def)
  have ne: "ustr ''https://a.test'' \<noteq> ustr ''https://b.test''"
      "ustr ''watch https://a.test https://b.test 10'' \<noteq> []"
    by (simp_all add: ustr_def)
  have c: "run_command py_runtime demo_args (ustr ''42'') (ustr ''watch'')
             [ustr ''https://a.test'', ustr ''https://b.test'', ustr ''10''] []
           = ([(ustr ''42'',
                      \<lparr>urls = [ustr ''https://a.test'', ustr ''https://b.test''], interval = 10,
                       states = [(ustr ''https://a.test'', None), (ustr ''https://b.test'', None)],
                       next_at = 0\<rparr>)],
              [Send (ustr ''TOKEN'') (ustr ''42'')
                 (Started [ustr ''https://a.test'', ustr ''https://b.test''] 10 (ustr ''open''))])"
    using w ne by (simp add: run_command_def py_runtime_simps demo_args_simps init_states_def)
  show "process_update py_runtime demo_args (said 1 ''watch https://a.test https://b.test 10'') fresh_bot
       = (\<lparr>tasks = [(ustr ''42'',
                      \<lparr>urls = [ustr ''https://a.test'', ustr ''https://b.test''], interval = 10,
                       states = [(ustr ''https://a.test'', None), (ustr ''https://b.test'', None)],
                       next_at = 0\<rparr>)],
            next_offset = Some 2\<rparr>,
          [Send (ustr ''TOKEN'') (ustr ''42'')
             (Started [ustr ''https://a.test'', ustr ''https://b.test''] 10 (ustr ''open''))])"
    using ne ustr_nonempty
    by (simp add: said_def fresh_bot_def process_update_def falsy_def Let_def py_runtime_simps p c)
next
  have p: "parse_command py_unicode (ustr ''watch'') = (ustr ''watch'', [])"
    by (simp add: parse_command_def strip_def split_ws_def py_unicode_def py_isspace_def
        py_lower_cp_def ustr_def)
  have v: "ustr ''watch'' \<notin> {ustr ''/stop'', ustr ''stop'', ustr ''/status'', ustr ''status'',
              ustr ''/help'', ustr ''help'', ustr ''/start'', ustr ''start''}"
      "ustr ''watch'' \<noteq> []"
    by (simp_all add: ustr_def)
  then have c: "run_command py_runtime demo_args (ustr ''42'') (ustr ''watch'') [] [] = ([], [])"
    by (simp add: run_command_def)
  show "process_update py_runtime demo_args (said 1 ''watch'') fresh_bot
       = (\<lparr>tasks = [], next_offset = Some 2\<rparr>, [])"
    using v ustr_nonempty
    by (simp add: said_def fresh_bot_def process_update_def falsy_def Let_def py_runtime_simps p c)
next
  have p: "parse_command py_unicode (ustr ''WATCH 3 https://a.test x 7 0 https://a.test'')
             = (ustr ''watch'', [ustr ''3'', ustr ''https://a.test'', ustr ''x'', ustr ''7'', ustr ''0'',
                                 ustr ''https://a.test''])"
    by (simp add: parse_command_def strip_def split_ws_def py_unicode_def py_isspace_def
        py_lower_cp_def ustr_def)
  have w: "watch_args py_float [ustr ''3'', ustr ''https://a.test'', ustr ''x'', ustr ''7'', ustr ''0'',
                                 ustr ''https://a.test''] ([], 5)
             = ([ustr ''https://a.test'', ustr ''https://a.test''], 7)"
    by (simp add: is_url_def py_float_def ustr_def)
  have ne: "ustr ''WATCH 3 https://a.test x 7 0 https://a.test'' \<noteq> []"
    by (simp add: ustr_def)
  have c: "run_command py_runtime demo_args (ustr ''42'') (ustr ''watch'')
             [ustr ''3'', ustr ''https://a.test'', ustr ''x'', ustr ''7'', ustr ''0'',
              ustr ''https://a.test''] []
           = ([(ustr ''42'',
                      \<lparr>urls = [ustr ''https://a.test'', ustr ''https://a.test''], interval = 7,
                       states = [(ustr ''https://a.test'', None)], next_at = 0\<rparr>)],
              [Send (ustr ''TOKEN'') (ustr ''42'')
                 (Started [ustr ''https://a.test'', ustr ''https://a.test''] 7 (ustr ''open''))])"
    using w by (simp add: run_command_def py_runtime_simps demo_args_simps init_states_def)
  show "process_update py_runtime demo_args (said 1 ''WATCH 3 https://a.test x 7 0 https://a.test'') fresh_bot
       = (\<lparr>tasks = [(ustr ''42'',
                      \<lparr>urls = [ustr ''https://a.test'', ustr ''https://a.test''], interval = 7,
                       states = [(ustr ''https://a.test'', None)], next_at = 0\<rparr>)],
            next_offset = Some 2\<rparr>,
          [Send (ustr ''TOKEN'') (ustr ''42'')
             (Started [ustr ''https://a.test'', ustr ''https://a.test''] 7 (ustr ''open''))])"
    using ne ustr_nonempty
    by (simp add: said_def fresh_bot_def process_update_def falsy_def Let_def py_runtime_simps p c)
next
  have p: "parse_command py_unicode (ustr ''watch soon 10'') = (ustr ''watch'', [ustr ''soon'', ustr ''10''])"
    by (simp add: parse_command_def strip_def split_ws_def py_unicode_def py_isspace_def
        py_lower_cp_def ustr_def)
  have w: "watch_args py_float [ustr ''soon'', ustr ''10''] ([], 5) = ([], 10)"
    by (simp add: is_url_def py_float_def ustr_def)
  have ne: "ustr ''watch soon 10'' \<noteq> []"
    by (simp add: ustr_def)
  have c: "run_command py_runtime demo_args (ustr ''42'') (ustr ''watch'') [ustr ''soon'', ustr ''10''] []
           = ([], [Send (ustr ''TOKEN'') (ustr ''42'') NeedUrl])"
    using w by (simp add: run_command_def py_runtime_simps demo_args_simps)
  show "process_update py_runtime demo_args (said 1 ''watch soon 10'') fresh_bot
       = (\<lparr>tasks = [], next_offset = Some 2\<rparr>, [Send (ustr ''TOKEN'') (ustr ''42'') NeedUrl])"
    using ne ustr_nonempty
    by (simp add: said_def fresh_bot_def process_update_def falsy_def Let_def py_runtime_simps p c)
qed

theorem start_watch_parsing_witness:
  "split_ws (uni py_runtime) (strip (uni py_runtime) (ustr ''Watch https://a.test 10''))
     = ustr ''Watch'' # [ustr ''https://a.test'', ustr ''10'']
   \<and> lower (uni py_runtime) (ustr ''Watch'') = ustr ''watch''
   \<and> parse_command (uni py_runtime) (ustr ''Watch https://a.test 10'')
       = (lower (uni py_runtime) (ustr ''Watch''), [ustr ''https://a.test'', ustr ''10''])
   \<and> run_command py_runtime demo_args (ustr ''42'') (lower (uni py_runtime) (ustr ''Watch''))
         [ustr ''https://a.test'', ustr ''10''] []
       = (if filter is_url [ustr ''https://a.test'', ustr ''10''] = []
          then ([], [Send (args_tg_token demo_args) (ustr ''42'') NeedUrl])
          else (dict_set (ustr ''42'')
                  \<lparr>urls = filter is_url [ustr ''https://a.test'', ustr ''10''],
                   interval = last (args_interval demo_args #
                                interval_tokens (float_of py_runtime) [ustr ''https://a.test'', ustr ''10'']),
                   states = init_states (filter is_url [ustr ''https://a.test'', ustr ''10'']),
                   next_at = 0\<rparr> [],
                [Send (args_tg_token demo_args) (ustr ''42'')
                   (Started (filter is_url [ustr ''https://a.test'', ustr ''10''])
                      (last (args_interval demo_args #
                         interval_tokens (float_of py_runtime) [ustr ''https://a.test'', ustr ''10'']))
                      (args_find demo_args))]))"
proof -
  have h1: "split_ws (uni py_runtime) (strip (uni py_runtime) (ustr ''Watch https://a.test 10''))
     = ustr ''Watch'' # [ustr ''https://a.test'', ustr ''10'']"
    by (simp add: py_runtime_simps strip_def split_ws_def py_unicode_def py_isspace_def ustr_def)
  have h2: "lower (uni py_runtime) (ustr ''Watch'') = ustr ''watch''"
    by (simp add: py_runtime_simps py_unicode_def py_lower_cp_def ustr_def)
  have h3: "lower (uni py_runtime) (ustr ''Watch'') \<in> {ustr ''/watch'', ustr ''watch''}"
    by (simp add: h2)
  have h4: "[ustr ''https://a.test'', ustr ''10''] \<noteq> []"
    by simp
  from start_watch_parsing[where R = py_runtime and cmd_text = "ustr ''Watch https://a.test 10''"
      and verb = "ustr ''Watch''" and cmd_args = "[ustr ''https://a.test'', ustr ''10'']"
      and a = demo_args and chat = "ustr ''42''" and ts = "[]"] h1 h2 h3 h4
  show ?thesis by blast
qed

text \<open>
  C7. A start-watch command with at least one URL, from a chat that has a task, puts the
  new task in the old one's place: the table keeps its chats and their order, the other
  chats keep their tasks, and the task of the chat has the URLs and the interval of the
  command, every state unknown and the due time zero, whatever the old task was. A chat that
  watched two URLs, one found and one not, and sends \<open>/watch https://a.test 9\<close> has a
  task of one URL in state unknown.
\<close>

theorem start_watch_replaces_task:
  "(cmd \<in> {ustr ''/watch'', ustr ''watch''} \<and> filter is_url cmd_args \<noteq> [] \<and> chat \<in> set (keys ts) \<longrightarrow>
      keys (fst (run_command R a chat cmd cmd_args ts)) = keys ts
      \<and> dict_get (fst (run_command R a chat cmd cmd_args ts)) chat =
          Some \<lparr>urls = filter is_url cmd_args,
                interval = last (args_interval a # interval_tokens (float_of R) cmd_args),
                states = init_states (filter is_url cmd_args), next_at = 0\<rparr>
      \<and> (\<forall>c. c = chat \<or> dict_get (fst (run_command R a chat cmd cmd_args ts)) c = dict_get ts c))
   \<and> states_get (init_states us) u = None
   \<and> dict_get (init_states us) u = (if u \<in> set us then Some None else None)
   \<and> run_command py_runtime demo_args (ustr ''42'') (ustr ''/watch'') [ustr ''https://a.test'', ustr ''9'']
        [(ustr ''41'', \<lparr>urls = [ustr ''https://b.test''], interval = 5,
                        states = [(ustr ''https://b.test'', Some True)], next_at = 12\<rparr>),
         (ustr ''42'', \<lparr>urls = [ustr ''https://a.test'', ustr ''https://b.test''], interval = 5,
                        states = [(ustr ''https://a.test'', Some True), (ustr ''https://b.test'', Some False)],
                        next_at = 17\<rparr>)]
      = ([(ustr ''41'', \<lparr>urls = [ustr ''https://b.test''], interval = 5,
                          states = [(ustr ''https://b.test'', Some True)], next_at = 12\<rparr>),
          (ustr ''42'', \<lparr>urls = [ustr ''https://a.test''], interval = 9,
                          states = [(ustr ''https://a.test'', None)], next_at = 0\<rparr>)],
         [Send (ustr ''TOKEN'') (ustr ''42'') (Started [ustr ''https://a.test''] 9 (ustr ''open''))])"
proof (intro conjI impI allI)
  assume h: "cmd \<in> {ustr ''/watch'', ustr ''watch''} \<and> filter is_url cmd_args \<noteq> [] \<and> chat \<in> set (keys ts)"
  then have ne: "cmd_args \<noteq> []"
    by auto
  from h have eq: "fst (run_command R a chat cmd cmd_args ts) =
      dict_set chat \<lparr>urls = filter is_url cmd_args,
                interval = last (args_interval a # interval_tokens (float_of R) cmd_args),
                states = init_states (filter is_url cmd_args), next_at = 0\<rparr> ts"
    using run_command_watch[of cmd cmd_args R a chat ts] ne by simp
  from h show "keys (fst (run_command R a chat cmd cmd_args ts)) = keys ts"
    by (simp add: eq keys_dict_set)
  show "dict_get (fst (run_command R a chat cmd cmd_args ts)) chat =
          Some \<lparr>urls = filter is_url cmd_args,
                interval = last (args_interval a # interval_tokens (float_of R) cmd_args),
                states = init_states (filter is_url cmd_args), next_at = 0\<rparr>"
    by (simp add: eq dict_get_set)
  show "c = chat \<or> dict_get (fst (run_command R a chat cmd cmd_args ts)) c = dict_get ts c" for c
    by (simp add: eq dict_get_set)
next
  show "states_get (init_states us) u = None"
    by (rule states_get_init)
next
  show "dict_get (init_states us) u = (if u \<in> set us then Some None else None)"
    by (rule get_init_states)
next
  have w: "watch_args py_float [ustr ''https://a.test'', ustr ''9''] ([], 5) = ([ustr ''https://a.test''], 9)"
    by (simp add: is_url_def py_float_def ustr_def)
  have ne: "ustr ''41'' \<noteq> ustr ''42''"
    by (simp add: ustr_def)
  show "run_command py_runtime demo_args (ustr ''42'') (ustr ''/watch'') [ustr ''https://a.test'', ustr ''9'']
        [(ustr ''41'', \<lparr>urls = [ustr ''https://b.test''], interval = 5,
                        states = [(ustr ''https://b.test'', Some True)], next_at = 12\<rparr>),
         (ustr ''42'', \<lparr>urls = [ustr ''https://a.test'', ustr ''https://b.test''], interval = 5,
                        states = [(ustr ''https://a.test'', Some True), (ustr ''https://b.test'', Some False)],
                        next_at = 17\<rparr>)]
      = ([(ustr ''41'', \<lparr>urls = [ustr ''https://b.test''], interval = 5,
                          states = [(ustr ''https://b.test'', Some True)], next_at = 12\<rparr>),
          (ustr ''42'', \<lparr>urls = [ustr ''https://a.test''], interval = 9,
                          states = [(ustr ''https://a.test'', None)], next_at = 0\<rparr>)],
         [Send (ustr ''TOKEN'') (ustr ''42'') (Started [ustr ''https://a.test''] 9 (ustr ''open''))])"
    using w ne by (simp add: run_command_def py_runtime_simps demo_args_simps init_states_def)
qed

theorem start_watch_replaces_task_witness:
  "ustr ''/watch'' \<in> {ustr ''/watch'', ustr ''watch''}
   \<and> filter is_url [ustr ''https://a.test'', ustr ''9''] = [ustr ''https://a.test'']
   \<and> ustr ''42'' \<in> set (keys [(ustr ''42'', \<lparr>urls = [ustr ''https://b.test''], interval = 5 :: real,
                        states = [(ustr ''https://b.test'', Some True)], next_at = 12\<rparr>)])
   \<and> dict_get (fst (run_command py_runtime demo_args (ustr ''42'') (ustr ''/watch'')
                      [ustr ''https://a.test'', ustr ''9'']
                      [(ustr ''42'', \<lparr>urls = [ustr ''https://b.test''], interval = 5,
                        states = [(ustr ''https://b.test'', Some True)], next_at = 12\<rparr>)]))
         (ustr ''42'')
       = Some \<lparr>urls = filter is_url [ustr ''https://a.test'', ustr ''9''],
               interval = last (args_interval demo_args #
                            interval_tokens (float_of py_runtime) [ustr ''https://a.test'', ustr ''9'']),
               states = init_states (filter is_url [ustr ''https://a.test'', ustr ''9'']), next_at = 0\<rparr>"
proof -
  have h1: "ustr ''/watch'' \<in> {ustr ''/watch'', ustr ''watch''}"
    by simp
  have h2: "filter is_url [ustr ''https://a.test'', ustr ''9''] = [ustr ''https://a.test'']"
    by (simp add: is_url_def ustr_def)
  then have h2': "filter is_url [ustr ''https://a.test'', ustr ''9''] \<noteq> []"
    by simp
  have h3: "ustr ''42'' \<in> set (keys [(ustr ''42'', \<lparr>urls = [ustr ''https://b.test''], interval = 5 :: real,
                        states = [(ustr ''https://b.test'', Some True)], next_at = 12\<rparr>)])"
    by (simp add: keys_def)
  from start_watch_replaces_task[where R = py_runtime and cmd = "ustr ''/watch''"
      and cmd_args = "[ustr ''https://a.test'', ustr ''9'']" and a = demo_args
      and chat = "ustr ''42''"
      and ts = "[(ustr ''42'', \<lparr>urls = [ustr ''https://b.test''], interval = 5,
                        states = [(ustr ''https://b.test'', Some True)], next_at = 12\<rparr>)]"]
    h1 h2 h2' h3
  show ?thesis by blast
qed

section \<open>Startup and decoding\<close>

text \<open>
  C8 (amended). The token of bot mode is the \<open>--tg-token\<close> flag when it is given, else
  the environment variable \<open>TELEGRAM_BOT_TOKEN\<close> when it is set, else the constant written
  in the source. Bot mode stops at startup with its diagnostic exactly when that token is
  the empty string, that is when the flag or, without a flag, the variable is given empty.
\<close>

theorem bot_token_resolution:
  "parse_tg_token environ flag =
     (case flag of
        Some v \<Rightarrow> v
      | None \<Rightarrow>
          (case environ (ustr ''TELEGRAM_BOT_TOKEN'') of
             Some v \<Rightarrow> v
           | None \<Rightarrow> fallback_tg_token))
   \<and> fallback_tg_token \<noteq> []
   \<and> ((\<exists>msg. bot_start (bot_args environ flag) = Inl (SystemExit msg))
        = (flag = Some [] \<or> (flag = None \<and> environ (ustr ''TELEGRAM_BOT_TOKEN'') = Some [])))
   \<and> bot_start a =
       (if args_tg_token a = []
        then Inl (SystemExit ''Telegram token is required in bot mode (use --tg-token or TELEGRAM_BOT_TOKEN)'')
        else Inr (\<lparr>tasks = [], next_offset = None\<rparr>,
                  [Send (args_tg_token a) (args_tg_chat_id a) BotRunning]))"
proof (intro conjI)
  show "parse_tg_token environ flag =
     (case flag of
        Some v \<Rightarrow> v
      | None \<Rightarrow>
          (case environ (ustr ''TELEGRAM_BOT_TOKEN'') of
             Some v \<Rightarrow> v
           | None \<Rightarrow> fallback_tg_token))"
    by (simp add: parse_tg_token_def tg_token_default_def getenv_def split: option.splits)
next
  show "fallback_tg_token \<noteq> []"
    by (simp add: fallback_tg_token_def ustr_def)
next
  have lit: "fallback_tg_token \<noteq> []"
    by (simp add: fallback_tg_token_def ustr_def)
  show "(\<exists>msg. bot_start (bot_args environ flag) = Inl (SystemExit msg))
        = (flag = Some [] \<or> (flag = None \<and> environ (ustr ''TELEGRAM_BOT_TOKEN'') = Some []))"
    using lit
    by (auto simp: bot_start_def bot_args_def parse_tg_token_def tg_token_default_def getenv_def
        Let_def split: option.splits)
next
  show "bot_start a =
       (if args_tg_token a = []
        then Inl (SystemExit ''Telegram token is required in bot mode (use --tg-token or TELEGRAM_BOT_TOKEN)'')
        else Inr (\<lparr>tasks = [], next_offset = None\<rparr>,
                  [Send (args_tg_token a) (args_tg_chat_id a) BotRunning]))"
    by (simp add: bot_start_def Let_def)
qed

text \<open>
  Bot mode with no flag and an empty environment starts, with the constant of the source
  as its token.
\<close>

theorem bot_starts_without_credential:
  "bot_start (bot_args Map.empty None) =
     Inr (\<lparr>tasks = [], next_offset = None\<rparr>,
          [Send fallback_tg_token (ustr ''791653669'') BotRunning])
   \<and> fallback_tg_token \<noteq> []"
proof -
  have "fallback_tg_token \<noteq> []"
    by (simp add: fallback_tg_token_def ustr_def)
  then show ?thesis
    by (simp add: bot_start_def bot_args_def parse_tg_token_def tg_token_default_def getenv_def)
qed

text \<open>
  C9 (amended). The declared encoding is taken when there is one, the detected encoding
  when there is none; whichever was taken, it is replaced by UTF-8 when it is missing or
  empty or, lower-cased, is \<open>iso-8859-1\<close>. The status and the body are not touched.
\<close>

theorem encoding_choice:
  "encoding (fix_encoding U resp) =
     Some (if \<not> falsy (encoding resp)
           then (if lower U (the (encoding resp)) = ustr ''iso-8859-1'' then ustr ''utf-8''
                 else the (encoding resp))
           else (if falsy (apparent_encoding resp)
                    \<or> lower U (the (apparent_encoding resp)) = ustr ''iso-8859-1''
                 then ustr ''utf-8''
                 else the (apparent_encoding resp)))
   \<and> content (fix_encoding U resp) = content resp
   \<and> status_code (fix_encoding U resp) = status_code resp"
  by (cases "encoding resp"; cases "apparent_encoding resp")
     (auto simp: fix_encoding_def falsy_def Let_def)

text \<open>
  A page declared as ISO-8859-1 whose body is detected as windows-1256 is decoded as UTF-8:
  the detection is not consulted.
\<close>

theorem declared_latin1_skips_detection:
  "encoding (fix_encoding py_unicode
       \<lparr>status_code = 200, encoding = Some (ustr ''ISO-8859-1''),
        apparent_encoding = Some (ustr ''windows-1256''), content = []\<rparr>)
     = Some (ustr ''utf-8'')
   \<and> Some (ustr ''utf-8'') \<noteq> Some (ustr ''windows-1256'')"
  by (simp add: fix_encoding_def falsy_def py_unicode_def py_lower_cp_def ustr_def)

end
